theory Spec2Isabelle
  imports Main "HOL-Library.AList"
begin

section \<open>JavaScript values\<close>

text \<open>
  The values the two nodes handle are JavaScript values: message bodies, node parameters and
  the records handed to the workflow. Numbers are the integers (fractions, NaN and the
  infinities play no part in the code modelled here). A string is a list of code units below
  256. A Node \<open>Buffer\<close> is a list of bytes. An object is the list of its own properties in
  insertion order.
\<close>

datatype jsval =
    JUndefined
  | JNull
  | JBool bool
  | JNum int
  | JStr string
  | JBigInt int
  | JSymbol string
  | JFunction string
  | JBuffer "nat list"
  | JArr "jsval list"
  | JObj "(string \<times> jsval) list"

text \<open>The \<open>typeof\<close> operator.\<close>

fun typeof :: "jsval \<Rightarrow> string" where
  "typeof JUndefined = ''undefined''"
| "typeof JNull = ''object''"
| "typeof (JBool b) = ''boolean''"
| "typeof (JNum n) = ''number''"
| "typeof (JStr s) = ''string''"
| "typeof (JBigInt n) = ''bigint''"
| "typeof (JSymbol s) = ''symbol''"
| "typeof (JFunction f) = ''function''"
| "typeof (JBuffer bs) = ''object''"
| "typeof (JArr vs) = ''object''"
| "typeof (JObj kvs) = ''object''"

text \<open>Truthiness, as \<open>if (v)\<close>, \<open>v && ...\<close> and \<open>v || ...\<close> test it.\<close>

fun truthy :: "jsval \<Rightarrow> bool" where
  "truthy JUndefined = False"
| "truthy JNull = False"
| "truthy (JBool b) = b"
| "truthy (JNum n) = (n \<noteq> 0)"
| "truthy (JStr s) = (s \<noteq> [])"
| "truthy (JBigInt n) = (n \<noteq> 0)"
| "truthy v = True"

text \<open>
  Reading a property of a value that is neither \<open>null\<close> nor \<open>undefined\<close>. Only objects
  carry the properties the code reads (\<open>type\<close>, \<open>data\<close>); a Buffer, an array or a scalar has
  neither, so the read gives \<open>undefined\<close>.
\<close>

fun get_prop :: "jsval \<Rightarrow> string \<Rightarrow> jsval" where
  "get_prop (JObj kvs) k = (case map_of kvs k of Some v \<Rightarrow> v | None \<Rightarrow> JUndefined)"
| "get_prop v k = JUndefined"

text \<open>\<open>Buffer.isBuffer\<close>.\<close>

fun isBuffer :: "jsval \<Rightarrow> bool" where
  "isBuffer (JBuffer bs) = True"
| "isBuffer v = False"

text \<open>
  \<open>String.prototype.trim\<close> removes white space and line terminators at both ends. Among
  the code units below 256 these are 9 to 13, 32 and 160.
\<close>

definition isWhiteSpace :: "char \<Rightarrow> bool" where
  "isWhiteSpace c = (of_char c \<in> {9, 10, 11, 12, 13, 32, 160 :: nat})"

definition js_trim :: "string \<Rightarrow> string" where
  "js_trim s = rev (dropWhile isWhiteSpace (rev (dropWhile isWhiteSpace s)))"

definition startsWith :: "string \<Rightarrow> string \<Rightarrow> bool" where
  "startsWith s p = (take (length p) s = p)"

section \<open>Errors\<close>

text \<open>
  What the code throws or what a promise of the SDK rejects with. \<open>NodeOperationError\<close>
  and \<open>JsError\<close> (a plain \<open>Error\<close>) are constructed by the nodes themselves, \<open>TypeError\<close> by
  \<open>Buffer.from\<close>, \<open>SyntaxError\<close> by \<open>JSON.parse\<close>, \<open>SdkError\<close> stands for whatever the Service Bus SDK or the HTTP transport
  rejects with.
\<close>

datatype js_error =
    NodeOperationError string
  | JsError string
  | TypeError string
  | SyntaxError string
  | SdkError string

fun error_message :: "js_error \<Rightarrow> string" where
  "error_message (NodeOperationError m) = m"
| "error_message (JsError m) = m"
| "error_message (TypeError m) = m"
| "error_message (SyntaxError m) = m"
| "error_message (SdkError m) = m"

section \<open>The runtime\<close>

text \<open>
  Three functions of the Node runtime are called when a body is normalized. They are not
  code of the nodes, so the model takes them as a parameter:
  \<^item> \<open>Buffer.from(x)\<close>, which gives the bytes or throws;
  \<^item> \<open>buffer.toString('utf8')\<close>;
  \<^item> \<open>JSON.parse(s)\<close>, which gives a value or throws.
\<close>

record runtime =
  Buffer_from :: "jsval \<Rightarrow> js_error + nat list"
  toString_utf8 :: "nat list \<Rightarrow> string"
  JSON_parse :: "string \<Rightarrow> js_error + jsval"

text \<open>
  \<open>JSON.parse\<close> skips JSON white space only, and a JSON text that begins with a brace is an
  object. So when the trimmed text starts with a brace, a successful parse yields an object.
  This property of the runtime is a hypothesis wherever it is needed.
\<close>

definition parses_objects :: "runtime \<Rightarrow> bool" where
  "parses_objects rt =
     (\<forall>s v. startsWith (js_trim s) ''{'' \<longrightarrow> JSON_parse rt s = Inr v \<longrightarrow> (\<exists>kvs. v = JObj kvs))"

section \<open>Normalizing a message body\<close>

text \<open>
  The statements that normalize \<open>message.body\<close> stand twice in the source, word for word:
  in \<open>processMessage\<close> of the trigger and in the loop of \<open>receiveMessages\<close> of the action
  node. First an object whose \<open>type\<close> is \<open>'Buffer'\<close>, or else a Buffer, is replaced by its
  text.
\<close>

definition isBufferWrapper :: "jsval \<Rightarrow> bool" where
  "isBufferWrapper messageBody =
     (truthy messageBody \<and> typeof messageBody = ''object'' \<and>
      get_prop messageBody ''type'' = JStr ''Buffer'')"

fun buffer_bytes :: "jsval \<Rightarrow> nat list" where
  "buffer_bytes (JBuffer bs) = bs"
| "buffer_bytes v = []"

definition decodeBuffer :: "runtime \<Rightarrow> jsval \<Rightarrow> js_error + jsval" where
  "decodeBuffer rt messageBody =
     (if isBufferWrapper messageBody then
        (case Buffer_from rt (get_prop messageBody ''data'') of
           Inl e \<Rightarrow> Inl e
         | Inr buffer \<Rightarrow> Inr (JStr (toString_utf8 rt buffer)))
      else if isBuffer messageBody then
        Inr (JStr (toString_utf8 rt (buffer_bytes messageBody)))
      else Inr messageBody)"

text \<open>
  Then a string whose trimmed form starts with a brace is parsed; the \<open>catch\<close> keeps the
  string when \<open>JSON.parse\<close> throws.
\<close>

definition parseJsonBody :: "runtime \<Rightarrow> jsval \<Rightarrow> jsval" where
  "parseJsonBody rt messageBody =
     (case messageBody of
        JStr s \<Rightarrow>
          if startsWith (js_trim s) ''{'' then
            (case JSON_parse rt s of Inr parsed \<Rightarrow> parsed | Inl parseError \<Rightarrow> JStr s)
          else JStr s
      | _ \<Rightarrow> messageBody)"

definition normalizeBody :: "runtime \<Rightarrow> jsval \<Rightarrow> js_error + jsval" where
  "normalizeBody rt messageBody =
     (case decodeBuffer rt messageBody of
        Inl e \<Rightarrow> Inl e
      | Inr decoded \<Rightarrow> Inr (parseJsonBody rt decoded))"

section \<open>A runtime to compute with\<close>

text \<open>
  To run the model on concrete bodies, a runtime that agrees with Node on ASCII data:
  \<open>Buffer.from\<close> of an array of integers, of a string and of a Buffer; decoding of bytes below
  128; and \<open>JSON.parse\<close> of texts made of objects, arrays, strings without escapes, integers,
  \<open>true\<close>, \<open>false\<close> and \<open>null\<close> (the wording of its \<open>SyntaxError\<close> is not Node's). Every
  general statement below is about an arbitrary runtime; this one only serves to evaluate
  examples.
\<close>

fun byte_of :: "jsval \<Rightarrow> nat" where
  "byte_of (JNum n) = nat (n mod 256)"
| "byte_of v = 0"

fun node_Buffer_from :: "jsval \<Rightarrow> js_error + nat list" where
  "node_Buffer_from (JArr vs) = Inr (map byte_of vs)"
| "node_Buffer_from (JStr s) = Inr (map of_char s)"
| "node_Buffer_from (JBuffer bs) = Inr bs"
| "node_Buffer_from v =
     Inl (TypeError ''The first argument must be of type string or an instance of Buffer, ArrayBuffer, or Array or an Array-like Object.'')"

definition node_toString_utf8 :: "nat list \<Rightarrow> string" where
  "node_toString_utf8 bs = map char_of bs"

definition json_ws :: "char \<Rightarrow> bool" where
  "json_ws c = (of_char c \<in> {9, 10, 13, 32 :: nat})"

definition is_digit :: "char \<Rightarrow> bool" where
  "is_digit c = (48 \<le> (of_char c :: nat) \<and> (of_char c :: nat) \<le> 57)"

text \<open>The characters of a string up to the closing quote; no escapes, no control characters.\<close>

fun json_string :: "string \<Rightarrow> (string \<times> string) option" where
  "json_string [] = None"
| "json_string (c # cs) =
     (if c = CHR 0x22 then Some ([], cs)
      else if c = CHR 0x5C \<or> (of_char c :: nat) < 32 then None
      else (case json_string cs of None \<Rightarrow> None | Some (s, r) \<Rightarrow> Some (c # s, r)))"

fun json_digits :: "string \<Rightarrow> nat \<Rightarrow> nat \<times> string" where
  "json_digits [] acc = (acc, [])"
| "json_digits (c # cs) acc =
     (if is_digit c then json_digits cs (10 * acc + (of_char c - 48)) else (acc, c # cs))"

text \<open>An integer: a zero, or digits that do not start with a zero.\<close>

definition json_nat :: "string \<Rightarrow> (nat \<times> string) option" where
  "json_nat s =
     (case s of
        [] \<Rightarrow> None
      | c # cs \<Rightarrow>
          if c = CHR ''0'' then Some (0, cs)
          else if is_digit c then Some (json_digits s 0)
          else None)"

text \<open>
  Values, the members of an object after its opening brace, the elements of an array after
  its opening bracket. The first argument bounds the depth of the calls; the length of the
  text is enough, since every call follows a character consumed.
\<close>

fun json_value :: "nat \<Rightarrow> string \<Rightarrow> (jsval \<times> string) option"
  and json_members :: "nat \<Rightarrow> string \<Rightarrow> (string \<times> jsval) list \<Rightarrow> (jsval \<times> string) option"
  and json_elements :: "nat \<Rightarrow> string \<Rightarrow> jsval list \<Rightarrow> (jsval \<times> string) option" where
  "json_value 0 s = None"
| "json_value (Suc n) s =
     (case dropWhile json_ws s of
        [] \<Rightarrow> None
      | c # r \<Rightarrow>
          if c = CHR ''{'' then
            (case dropWhile json_ws r of
               [] \<Rightarrow> None
             | d # r' \<Rightarrow> if d = CHR ''}'' then Some (JObj [], r') else json_members n r [])
          else if c = CHR ''['' then
            (case dropWhile json_ws r of
               [] \<Rightarrow> None
             | d # r' \<Rightarrow> if d = CHR '']'' then Some (JArr [], r') else json_elements n r [])
          else if c = CHR 0x22 then
            (case json_string r of None \<Rightarrow> None | Some (s', r') \<Rightarrow> Some (JStr s', r'))
          else if take 4 (c # r) = ''true'' then Some (JBool True, drop 4 (c # r))
          else if take 5 (c # r) = ''false'' then Some (JBool False, drop 5 (c # r))
          else if take 4 (c # r) = ''null'' then Some (JNull, drop 4 (c # r))
          else if c = CHR ''-'' then
            (case json_nat r of None \<Rightarrow> None | Some (k, r') \<Rightarrow> Some (JNum (- int k), r'))
          else
            (case json_nat (c # r) of None \<Rightarrow> None | Some (k, r') \<Rightarrow> Some (JNum (int k), r')))"
| "json_members 0 s acc = None"
| "json_members (Suc n) s acc =
     (case dropWhile json_ws s of
        [] \<Rightarrow> None
      | c # r \<Rightarrow>
          if c \<noteq> CHR 0x22 then None
          else
            (case json_string r of
               None \<Rightarrow> None
             | Some (k, r1) \<Rightarrow>
                 (case dropWhile json_ws r1 of
                    [] \<Rightarrow> None
                  | c2 # r2 \<Rightarrow>
                      if c2 \<noteq> CHR '':'' then None
                      else
                        (case json_value n r2 of
                           None \<Rightarrow> None
                         | Some (v, r3) \<Rightarrow>
                             (case dropWhile json_ws r3 of
                                [] \<Rightarrow> None
                              | c4 # r4 \<Rightarrow>
                                  if c4 = CHR '','' then json_members n r4 (AList.update k v acc)
                                  else if c4 = CHR ''}'' then Some (JObj (AList.update k v acc), r4)
                                  else None)))))"
| "json_elements 0 s acc = None"
| "json_elements (Suc n) s acc =
     (case json_value n s of
        None \<Rightarrow> None
      | Some (v, r) \<Rightarrow>
          (case dropWhile json_ws r of
             [] \<Rightarrow> None
           | c # r' \<Rightarrow>
               if c = CHR '','' then json_elements n r' (acc @ [v])
               else if c = CHR '']'' then Some (JArr (acc @ [v]), r')
               else None))"

definition node_JSON_parse :: "string \<Rightarrow> js_error + jsval" where
  "node_JSON_parse s =
     (case json_value (Suc (length s)) s of
        None \<Rightarrow> Inl (SyntaxError ''Unexpected token'')
      | Some (v, r) \<Rightarrow>
          if dropWhile json_ws r = [] then Inr v else Inl (SyntaxError ''Unexpected token''))"

definition node_runtime :: runtime where
  "node_runtime =
     \<lparr> Buffer_from = node_Buffer_from,
       toString_utf8 = node_toString_utf8,
       JSON_parse = node_JSON_parse \<rparr>"

text \<open>Bodies used as examples: the texts \<open>{}\<close>, \<open>{"a":1}\<close> and a serialized Buffer.\<close>

definition text_empty_object :: string where
  "text_empty_object = [CHR ''{'', CHR ''}'']"

definition text_a1 :: string where
  "text_a1 = [CHR ''{'', CHR 0x22, CHR ''a'', CHR 0x22, CHR '':'', CHR ''1'', CHR ''}'']"

definition text_wrapper_hi :: string where
  "text_wrapper_hi =
     [CHR ''{'', CHR 0x22] @ ''type'' @ [CHR 0x22, CHR '':'', CHR 0x22] @ ''Buffer'' @
     [CHR 0x22, CHR '','', CHR 0x22] @ ''data'' @ [CHR 0x22] @ '':[104,105]}''"

section \<open>Empty message bodies\<close>

text \<open>\<open>isEmptyMessageBody\<close> of AzureServiceBus.node.ts, case by case in the source's order.\<close>

definition isEmptyMessageBody :: "jsval \<Rightarrow> bool" where
  "isEmptyMessageBody messageBody =
     (if messageBody = JNull \<or> messageBody = JUndefined then True
      else if typeof messageBody = ''string'' then
        (case messageBody of JStr s \<Rightarrow> js_trim s = [] | _ \<Rightarrow> False)
      else if typeof messageBody = ''number'' \<or> typeof messageBody = ''boolean'' then False
      else if typeof messageBody = ''object'' then False
      else True)"

text \<open>
  The bodies the specification calls empty, in its words: \<open>null\<close>, \<open>undefined\<close>, a string whose
  trimmed form is empty, or a value that is not a string, a number, a boolean or an object.
\<close>

definition empty_as_specified :: "jsval \<Rightarrow> bool" where
  "empty_as_specified v =
     (v = JNull \<or> v = JUndefined \<or> (case v of JStr s \<Rightarrow> js_trim s = [] | _ \<Rightarrow> False) \<or>
      typeof v \<notin> {''string'', ''number'', ''boolean'', ''object''})"

section \<open>Messages to send\<close>

text \<open>The node parameters read for one input item of \<open>sendMessage\<close>.\<close>

record send_params =
  messageBody :: jsval
  messageProperties :: "(string \<times> string) list option"
  contentType :: string
  messageId :: string
  sessionId :: string

text \<open>The \<open>MessageWithSession\<close> handed to the sender.\<close>

record service_bus_message =
  msg_body :: jsval
  msg_contentType :: string
  msg_messageId :: "string option"
  msg_sessionId :: "string option"
  msg_applicationProperties :: "(string \<times> string) list option"

section \<open>Calls and state\<close>

text \<open>
  Both nodes work by calling the Service Bus SDK and the host. The model records every such
  call in the order made: sends, session acceptance, state reads and writes, subscriptions,
  completions, closes, the records handed to the workflow (\<open>emit\<close> in the trigger, a push to
  \<open>returnData\<close> in the action node), the delays of the session loop and the errors written to
  the console by a \<open>catch\<close>. A receiver is named by a number, its identity as an object.
\<close>

datatype sdk_call =
    CreateSender string
  | SendMessages string service_bus_message
  | SendMessageViaHTTP string service_bus_message
  | CloseSender string
  | CreateReceiver string nat
  | AcceptSession string string nat
  | AcceptNextSession string nat
  | GetSessionState nat
  | SetSessionState nat jsval
  | ReceiveMessages nat nat nat
  | Subscribe nat bool nat
  | CompleteMessage nat jsval
  | CloseReceiver nat
  | CloseClient
  | Emit jsval
  | PushReturnData jsval
  | Delay nat
  | LogError js_error

text \<open>The calls made so far are part of the state of either node.\<close>

record io_state =
  calls :: "sdk_call list"

definition call :: "sdk_call \<Rightarrow> 'a io_state_scheme \<Rightarrow> 'a io_state_scheme" where
  "call c st = st\<lparr>calls := calls st @ [c]\<rparr>"

text \<open>The state of one run of \<open>execute\<close>: the calls and the items pushed to \<open>returnData\<close>.\<close>

record exec_state = io_state +
  returnData :: "jsval list"

definition push :: "jsval \<Rightarrow> exec_state \<Rightarrow> exec_state" where
  "push item st = call (PushReturnData item) (st\<lparr>returnData := returnData st @ [item]\<rparr>)"

section \<open>The action node: sending\<close>

text \<open>
  The loop \<open>for (const prop of messageProperties.property)\<close>: a property with a non-empty
  key and a non-empty value is assigned; a later assignment to the same key replaces the
  value.
\<close>

fun assignProperties :: "(string \<times> string) list \<Rightarrow> (string \<times> string) list \<Rightarrow> (string \<times> string) list" where
  "assignProperties [] acc = acc"
| "assignProperties ((k, v) # ps) acc =
     assignProperties ps (if k \<noteq> [] \<and> v \<noteq> [] then AList.update k v acc else acc)"

text \<open>
  The message built for one item, the same statements in the queue branch and in the topic
  branch of \<open>execute\<close>.
\<close>

definition buildMessage :: "send_params \<Rightarrow> service_bus_message" where
  "buildMessage p =
     \<lparr> msg_body = messageBody p,
       msg_contentType = contentType p,
       msg_messageId =
         (if messageId p \<noteq> [] \<and> js_trim (messageId p) \<noteq> [] then Some (messageId p) else None),
       msg_sessionId =
         (if sessionId p \<noteq> [] \<and> js_trim (sessionId p) \<noteq> [] then Some (sessionId p) else None),
       msg_applicationProperties =
         (case messageProperties p of
            None \<Rightarrow> None
          | Some props \<Rightarrow> Some (assignProperties props [])) \<rparr>"

definition opt_str :: "string option \<Rightarrow> jsval" where
  "opt_str x = (case x of None \<Rightarrow> JUndefined | Some s \<Rightarrow> JStr s)"

definition sent_item :: "string \<Rightarrow> string \<Rightarrow> service_bus_message \<Rightarrow> string \<Rightarrow> jsval" where
  "sent_item entityKey entity message now =
     JObj [(''success'', JBool True), (''messageId'', opt_str (msg_messageId message)),
           (entityKey, JStr entity), (''sentAt'', JStr now)]"

text \<open>
  One turn of the loop over the input items in the queue branch. \<open>protocol\<close> is the node
  parameter; the SDK client and its sender exist exactly when it is \<open>sdk\<close>, the HTTP connection
  details exactly when it is \<open>http\<close>. \<open>send_fails\<close> is what the transport answers for a message
  (the text of its error, when it fails: the SDK rejects with an error of its own,
  \<open>sendMessageViaHTTP\<close> throws a plain \<open>Error\<close>), \<open>now\<close> the clock. The result is the error thrown,
  if any, and the state reached.
\<close>

definition queue_send_item ::
  "string \<Rightarrow> (service_bus_message \<Rightarrow> string option) \<Rightarrow> string \<Rightarrow> string \<Rightarrow> send_params
    \<Rightarrow> exec_state \<Rightarrow> js_error option \<times> exec_state" where
  "queue_send_item protocol send_fails queueName now p st =
     (if isEmptyMessageBody (messageBody p)
      then (Some (NodeOperationError ''Message Body cannot be empty''), st)
      else
        let message = buildMessage p in
        if protocol = ''sdk'' then
          (let st1 = call (SendMessages queueName message) st in
           case send_fails message of
             Some m \<Rightarrow> (Some (SdkError m), st1)
           | None \<Rightarrow> (None, push (sent_item ''queueName'' queueName message now) st1))
        else if protocol = ''http'' then
          (let messageWithSession =
                 (if sessionId p \<noteq> [] \<and> js_trim (sessionId p) \<noteq> []
                  then message\<lparr>msg_sessionId := Some (sessionId p)\<rparr> else message);
               st1 = call (SendMessageViaHTTP queueName messageWithSession) st in
           case send_fails messageWithSession of
             Some m \<Rightarrow> (Some (JsError m), st1)
           | None \<Rightarrow> (None, push (sent_item ''queueName'' queueName message now) st1))
        else (Some (NodeOperationError ''Invalid protocol configuration''), st))"

text \<open>One turn of the loop in the topic branch, which is reached with the SDK only.\<close>

definition topic_send_item ::
  "(service_bus_message \<Rightarrow> string option) \<Rightarrow> string \<Rightarrow> string \<Rightarrow> send_params
    \<Rightarrow> exec_state \<Rightarrow> js_error option \<times> exec_state" where
  "topic_send_item send_fails topicName now p st =
     (if isEmptyMessageBody (messageBody p)
      then (Some (NodeOperationError ''Message Body cannot be empty''), st)
      else
        let message = buildMessage p;
            st1 = call (SendMessages topicName message) st in
        case send_fails message of
          Some m \<Rightarrow> (Some (SdkError m), st1)
        | None \<Rightarrow> (None, push (sent_item ''topicName'' topicName message now) st1))"

text \<open>The loop over the items: the first error ends it.\<close>

fun send_loop ::
  "(send_params \<Rightarrow> exec_state \<Rightarrow> js_error option \<times> exec_state) \<Rightarrow> send_params list
    \<Rightarrow> exec_state \<Rightarrow> js_error option \<times> exec_state" where
  "send_loop item [] st = (None, st)"
| "send_loop item (p # ps) st =
     (case item p st of
        (Some e, st') \<Rightarrow> (Some e, st')
      | (None, st') \<Rightarrow> send_loop item ps st')"

text \<open>
  The \<open>catch\<close> and \<open>finally\<close> around every operation of \<open>execute\<close>: an error is written
  to the console and thrown again with a fixed prefix before its message, and the client is
  closed when the protocol is \<open>sdk\<close> (closing it is taken to succeed).
\<close>

definition execute_guard :: "string \<Rightarrow> js_error option \<times> exec_state \<Rightarrow> js_error option \<times> exec_state" where
  "execute_guard protocol r =
     (case r of
        (None, st) \<Rightarrow> (None, if protocol = ''sdk'' then call CloseClient st else st)
      | (Some error, st) \<Rightarrow>
          (let st1 = call (LogError error) st in
           (Some (NodeOperationError
                   (''Azure Service Bus operation failed: '' @ error_message error)),
            if protocol = ''sdk'' then call CloseClient st1 else st1)))"

text \<open>
  \<open>sendMessage\<close> on a queue: first what stands inside the \<open>try\<close> (the sender is created and
  closed with the SDK only), then the operation as \<open>execute\<close> runs it.
\<close>

definition queue_sendMessage_try ::
  "string \<Rightarrow> (service_bus_message \<Rightarrow> string option) \<Rightarrow> string \<Rightarrow> string \<Rightarrow> send_params list
    \<Rightarrow> js_error option \<times> exec_state" where
  "queue_sendMessage_try protocol send_fails queueName now items =
     (case send_loop (queue_send_item protocol send_fails queueName now) items
             \<lparr>calls = (if protocol = ''sdk'' then [CreateSender queueName] else []),
               returnData = []\<rparr> of
        (Some e, st) \<Rightarrow> (Some e, st)
      | (None, st) \<Rightarrow> (None, if protocol = ''sdk'' then call (CloseSender queueName) st else st))"

definition queue_sendMessage ::
  "string \<Rightarrow> (service_bus_message \<Rightarrow> string option) \<Rightarrow> string \<Rightarrow> string \<Rightarrow> send_params list
    \<Rightarrow> js_error option \<times> exec_state" where
  "queue_sendMessage protocol send_fails queueName now items =
     execute_guard protocol (queue_sendMessage_try protocol send_fails queueName now items)"

text \<open>
  \<open>sendMessage\<close> on a topic, likewise. The branch begins with a guard: with any protocol but
  \<open>sdk\<close> it throws before an item is looked at.
\<close>

definition topic_sendMessage_try ::
  "string \<Rightarrow> (service_bus_message \<Rightarrow> string option) \<Rightarrow> string \<Rightarrow> string \<Rightarrow> send_params list
    \<Rightarrow> js_error option \<times> exec_state" where
  "topic_sendMessage_try protocol send_fails topicName now items =
     (if protocol \<noteq> ''sdk''
      then (Some (NodeOperationError ''Topic operations are only supported with Azure SDK protocol''),
            \<lparr>calls = [], returnData = []\<rparr>)
      else
        (case send_loop (topic_send_item send_fails topicName now) items
                \<lparr>calls = [CreateSender topicName], returnData = []\<rparr> of
           (Some e, st) \<Rightarrow> (Some e, st)
         | (None, st) \<Rightarrow> (None, call (CloseSender topicName) st)))"

definition topic_sendMessage ::
  "string \<Rightarrow> (service_bus_message \<Rightarrow> string option) \<Rightarrow> string \<Rightarrow> string \<Rightarrow> send_params list
    \<Rightarrow> js_error option \<times> exec_state" where
  "topic_sendMessage protocol send_fails topicName now items =
     execute_guard protocol (topic_sendMessage_try protocol send_fails topicName now items)"

text \<open>The calls that hand a message to the transport.\<close>

fun is_send :: "sdk_call \<Rightarrow> bool" where
  "is_send (SendMessages entity message) = True"
| "is_send (SendMessageViaHTTP entity message) = True"
| "is_send c = False"

text \<open>
  The call that sends a message on a queue: \<open>sender.sendMessages\<close> with the SDK,
  \<open>sendMessageViaHTTP\<close> otherwise.
\<close>

definition queue_send_call :: "string \<Rightarrow> string \<Rightarrow> service_bus_message \<Rightarrow> sdk_call" where
  "queue_send_call protocol queueName message =
     (if protocol = ''sdk'' then SendMessages queueName message
      else SendMessageViaHTTP queueName message)"

text \<open>The error the catch of \<open>execute\<close> throws for an error caught.\<close>

definition operation_failed :: "js_error \<Rightarrow> js_error" where
  "operation_failed e =
     NodeOperationError (''Azure Service Bus operation failed: '' @ error_message e)"

section \<open>Received messages\<close>

text \<open>
  A \<open>ServiceBusReceivedMessage\<close>. The sequence number is a 64-bit \<open>Long\<close> or absent; the code
  renders it with \<open>toString()\<close>.
\<close>

record received_message =
  rm_messageId :: jsval
  rm_body :: jsval
  rm_contentType :: jsval
  rm_enqueuedTimeUtc :: jsval
  rm_applicationProperties :: jsval
  rm_deliveryCount :: jsval
  rm_sequenceNumber :: "int option"
  rm_sessionId :: jsval

fun decimal :: "nat \<Rightarrow> string" where
  "decimal n = (if n < 10 then [char_of (48 + n)] else decimal (n div 10) @ [char_of (48 + n mod 10)])"

definition long_toString :: "int \<Rightarrow> string" where
  "long_toString i = (if i < 0 then CHR ''-'' # decimal (nat (- i)) else decimal (nat i))"

definition sequenceNumber_toString :: "int option \<Rightarrow> jsval" where
  "sequenceNumber_toString n = (case n of None \<Rightarrow> JUndefined | Some i \<Rightarrow> JStr (long_toString i))"

section \<open>The trigger node\<close>

text \<open>
  The node parameters of the trigger. \<open>entityName\<close> is the queue, or the topic and the
  subscription joined by a slash.
\<close>

record trigger_config =
  resource :: string
  queueName :: string
  topicName :: string
  subscriptionName :: string
  sessionMode :: string
  specificSessionId :: string
  sessionTimeout :: nat
  autoComplete :: bool
  maxConcurrentCalls :: nat

definition entityName :: "trigger_config \<Rightarrow> string" where
  "entityName cfg =
     (if resource cfg = ''queue'' then queueName cfg
      else topicName cfg @ ''/'' @ subscriptionName cfg)"

text \<open>
  A session receiver is an object of the SDK: \<open>handle\<close> is its identity, \<open>receiverSessionId\<close>
  its property \<open>sessionId\<close>. A plain receiver has no such property.
\<close>

record session_receiver =
  handle :: nat
  receiverSessionId :: string

datatype receiver = PlainReceiver nat | SessionReceiver session_receiver

text \<open>What \<open>acceptSession\<close> or \<open>acceptNextSession\<close> answers: a receiver, or a rejection.\<close>

datatype accept_reply = Accepted session_receiver | Rejected js_error

text \<open>
  What the broker answers to the other calls: whether closing a receiver or the client fails,
  and what \<open>getSessionState\<close> gives.
\<close>

record broker =
  close_fails :: "nat \<Rightarrow> js_error option"
  client_close_fails :: "js_error option"
  getSessionState :: "nat \<Rightarrow> js_error + jsval"

text \<open>
  The variables of \<open>trigger\<close> that its closures share: the array \<open>receivers\<close>, the
  \<open>activeReceivers\<close> map of \<open>sessionReceiverManager\<close> (\<open>None\<close> while the manager is \<open>null\<close>; a
  JavaScript \<open>Map\<close> keeps its entries in insertion order, one per key), and whether
  \<open>startSessionHandling\<close> is still inside its loop.
\<close>

datatype loop_status = Looping | Stopped

record trigger_state = io_state +
  receivers :: "nat list"
  sessionReceiverManager :: "(string \<times> session_receiver) list option"
  sessionLoop :: loop_status

text \<open>
  The body of \<open>trigger\<close> up to the subscriptions: without sessions one plain receiver is
  created and subscribed; with sessions the manager is set up with an empty map and
  \<open>startSessionHandling\<close> is started.
\<close>

definition trigger_start :: "trigger_config \<Rightarrow> nat \<Rightarrow> trigger_state" where
  "trigger_start cfg h =
     (if sessionMode cfg = ''none'' then
        \<lparr> calls = [CreateReceiver (entityName cfg) h,
                    Subscribe h (autoComplete cfg) (maxConcurrentCalls cfg)],
          receivers = [h], sessionReceiverManager = None, sessionLoop = Stopped \<rparr>
      else
        \<lparr> calls = [], receivers = [], sessionReceiverManager = Some [], sessionLoop = Looping \<rparr>)"

text \<open>
  \<open>getOrCreateSessionReceiver\<close>. \<open>reply\<close> is what the broker answers if it is asked. The result
  is the receiver returned or the error thrown, and the state reached.
\<close>

definition getOrCreateSessionReceiver ::
  "trigger_config \<Rightarrow> accept_reply \<Rightarrow> trigger_state \<Rightarrow> (js_error + session_receiver) \<times> trigger_state" where
  "getOrCreateSessionReceiver cfg reply st =
     (case sessionReceiverManager st of
        None \<Rightarrow> (Inl (JsError ''Session receiver manager not initialized''), st)
      | Some activeReceivers \<Rightarrow>
          if sessionMode cfg = ''specific'' then
            (case map_of activeReceivers (specificSessionId cfg) of
               Some cached \<Rightarrow> (Inr cached, st)
             | None \<Rightarrow>
                 (let st1 = call (AcceptSession (entityName cfg) (specificSessionId cfg)
                                   (sessionTimeout cfg * 1000)) st in
                  case reply of
                    Accepted r \<Rightarrow>
                      (Inr r, st1\<lparr>sessionReceiverManager :=
                                   Some (AList.update (specificSessionId cfg) r activeReceivers)\<rparr>)
                  | Rejected e \<Rightarrow> (Inl e, call (LogError e) st1)))
          else if sessionMode cfg = ''any'' then
            (let st1 = call (AcceptNextSession (entityName cfg) (sessionTimeout cfg * 1000)) st in
             case reply of
               Accepted r \<Rightarrow>
                 (Inr r, st1\<lparr>sessionReceiverManager :=
                              Some (AList.update (receiverSessionId r) r activeReceivers)\<rparr>)
             | Rejected e \<Rightarrow> (Inl e, call (LogError e) st1))
          else (Inl (JsError (''Unsupported session mode: '' @ sessionMode cfg)), st))"

text \<open>
  \<open>processMessage\<close>: the body is normalized, the record is built, the session information is
  added when the receiver is a session receiver, and the record is emitted. \<open>now\<close> is the
  clock.
\<close>

definition sessionInfo :: "session_receiver \<Rightarrow> jsval \<Rightarrow> jsval" where
  "sessionInfo r sessionState =
     JObj [(''sessionId'', JStr (receiverSessionId r)), (''sessionState'', sessionState),
           (''isSessionMessage'', JBool True)]"

definition nodeExecutionData :: "trigger_config \<Rightarrow> string \<Rightarrow> received_message \<Rightarrow> jsval \<Rightarrow> (string \<times> jsval) list" where
  "nodeExecutionData cfg now message body =
     [(''messageId'', rm_messageId message),
      (''body'', body),
      (''contentType'', rm_contentType message),
      (''enqueuedTimeUtc'', rm_enqueuedTimeUtc message),
      (''applicationProperties'',
         if truthy (rm_applicationProperties message) then rm_applicationProperties message
         else JObj []),
      (''deliveryCount'', rm_deliveryCount message),
      (''sequenceNumber'', sequenceNumber_toString (rm_sequenceNumber message)),
      (''sessionId'', rm_sessionId message),
      (''receivedAt'', JStr now),
      (''entityName'', JStr (entityName cfg)),
      (''resource'', JStr (resource cfg)),
      (''sessionMode'', JStr (sessionMode cfg))]"

definition processMessage ::
  "runtime \<Rightarrow> broker \<Rightarrow> string \<Rightarrow> trigger_config \<Rightarrow> received_message \<Rightarrow> receiver \<Rightarrow> trigger_state
    \<Rightarrow> js_error option \<times> trigger_state" where
  "processMessage rt br now cfg message currentReceiver st =
     (case normalizeBody rt (rm_body message) of
        Inl e \<Rightarrow> (Some e, st)
      | Inr body \<Rightarrow>
          (let json = nodeExecutionData cfg now message body in
           case currentReceiver of
             PlainReceiver h \<Rightarrow> (None, call (Emit (JObj json)) st)
           | SessionReceiver r \<Rightarrow>
               if sessionMode cfg \<noteq> ''none'' then
                 (let st1 = call (GetSessionState (handle r)) st in
                  case getSessionState br (handle r) of
                    Inr sessionState \<Rightarrow>
                      (None, call (Emit (JObj (json @ [(''sessionInfo'', sessionInfo r sessionState)]))) st1)
                  | Inl stateError \<Rightarrow>
                      (None, call (Emit (JObj (json @ [(''sessionInfo'', sessionInfo r JNull)])))
                               (call (LogError stateError) st1)))
               else (None, call (Emit (JObj json)) st)))"

text \<open>
  The loop over \<open>activeReceivers\<close> that stands in \<open>processError\<close> and in \<open>closeFunction\<close>: each
  receiver is closed inside its own \<open>try\<close>, and the \<open>catch\<close> writes the error to the console.
\<close>

fun closeSessionReceivers ::
  "broker \<Rightarrow> (string \<times> session_receiver) list \<Rightarrow> trigger_state \<Rightarrow> trigger_state" where
  "closeSessionReceivers br [] st = st"
| "closeSessionReceivers br ((sid, r) # rest) st =
     (let st1 = call (CloseReceiver (handle r)) st in
      case close_fails br (handle r) of
        Some closeError \<Rightarrow> closeSessionReceivers br rest (call (LogError closeError) st1)
      | None \<Rightarrow> closeSessionReceivers br rest st1)"

text \<open>\<open>processError\<close>, the handler given to every subscription.\<close>

definition processError ::
  "broker \<Rightarrow> trigger_config \<Rightarrow> js_error \<Rightarrow> trigger_state \<Rightarrow> js_error option \<times> trigger_state" where
  "processError br cfg err st =
     (let st0 = call (LogError err) st in
      case sessionReceiverManager st0 of
        Some activeReceivers \<Rightarrow>
          if sessionMode cfg \<noteq> ''none'' then
            (None, (closeSessionReceivers br activeReceivers st0)\<lparr>sessionReceiverManager := Some []\<rparr>)
          else (None, st0)
      | None \<Rightarrow> (None, st0))"

text \<open>
  The handler a session subscription installs: \<open>processError\<close>, then the entry of the
  subscribed receiver, found by identity, is deleted from the map.
\<close>

fun deleteReceiver :: "session_receiver \<Rightarrow> (string \<times> session_receiver) list \<Rightarrow> (string \<times> session_receiver) list" where
  "deleteReceiver sessionReceiver [] = []"
| "deleteReceiver sessionReceiver ((sid, r) # rest) =
     (if handle r = handle sessionReceiver then rest
      else (sid, r) # deleteReceiver sessionReceiver rest)"

definition sessionProcessError ::
  "broker \<Rightarrow> trigger_config \<Rightarrow> session_receiver \<Rightarrow> js_error \<Rightarrow> trigger_state
    \<Rightarrow> js_error option \<times> trigger_state" where
  "sessionProcessError br cfg sessionReceiver err st =
     (case processError br cfg err st of
        (Some e, st1) \<Rightarrow> (Some e, st1)
      | (None, st1) \<Rightarrow>
          (case sessionReceiverManager st1 of
             None \<Rightarrow> (Some (TypeError ''Cannot read properties of null''), st1)
           | Some activeReceivers \<Rightarrow>
               (None, st1\<lparr>sessionReceiverManager :=
                           Some (deleteReceiver sessionReceiver activeReceivers)\<rparr>)))"

text \<open>
  One turn of the \<open>while (true)\<close> loop of \<open>startSessionHandling\<close>. The broker's answers for
  the turn are the reply to the acceptance and whether \<open>subscribe\<close> throws. The turn ends the
  loop (\<open>break\<close>) or goes on after a delay.
\<close>

record loop_answers =
  accept_reply :: accept_reply
  subscribe_throws :: "js_error option"

definition sessionLoopTurn ::
  "trigger_config \<Rightarrow> loop_answers \<Rightarrow> trigger_state \<Rightarrow> trigger_state" where
  "sessionLoopTurn cfg ans st =
     (case getOrCreateSessionReceiver cfg (accept_reply ans) st of
        (Inl sessionError, st1) \<Rightarrow> call (Delay 5000) (call (LogError sessionError) st1)
      | (Inr sessionReceiver, st1) \<Rightarrow>
          (let st2 = call (Subscribe (handle sessionReceiver) (autoComplete cfg)
                            (maxConcurrentCalls cfg)) st1 in
           case subscribe_throws ans of
             Some sessionError \<Rightarrow> call (Delay 5000) (call (LogError sessionError) st2)
           | None \<Rightarrow>
               if sessionMode cfg = ''specific'' then st2\<lparr>sessionLoop := Stopped\<rparr>
               else call (Delay 1000) st2))"

text \<open>
  The loop itself, run on the answers the broker has given so far. It takes a turn for each
  answer as long as it has not left the loop; \<open>sessionLoop\<close> tells whether it is still
  running when the answers are used up.
\<close>

fun startSessionHandling ::
  "trigger_config \<Rightarrow> loop_answers list \<Rightarrow> trigger_state \<Rightarrow> trigger_state" where
  "startSessionHandling cfg [] st = st"
| "startSessionHandling cfg (ans # rest) st =
     (if sessionLoop st = Looping then startSessionHandling cfg rest (sessionLoopTurn cfg ans st)
      else st)"

text \<open>
  \<open>closeFunction\<close>. The plain receivers are closed inside the outer \<open>try\<close> only, so the first
  failure there leaves the rest of the body out; the outer \<open>catch\<close> writes the error to the
  console and the function returns.
\<close>

fun closePlainReceivers :: "broker \<Rightarrow> nat list \<Rightarrow> trigger_state \<Rightarrow> js_error option \<times> trigger_state" where
  "closePlainReceivers br [] st = (None, st)"
| "closePlainReceivers br (h # rest) st =
     (let st1 = call (CloseReceiver h) st in
      case close_fails br h of
        Some e \<Rightarrow> (Some e, st1)
      | None \<Rightarrow> closePlainReceivers br rest st1)"

definition closeFunction :: "broker \<Rightarrow> trigger_state \<Rightarrow> js_error option \<times> trigger_state" where
  "closeFunction br st =
     (case closePlainReceivers br (receivers st) st of
        (Some error, st1) \<Rightarrow> (None, call (LogError error) st1)
      | (None, st1) \<Rightarrow>
          (let st2 = (case sessionReceiverManager st1 of
                        None \<Rightarrow> st1
                      | Some activeReceivers \<Rightarrow>
                          (closeSessionReceivers br activeReceivers st1)
                            \<lparr>sessionReceiverManager := Some []\<rparr>);
               st3 = call CloseClient st2 in
           case client_close_fails br of
             Some error \<Rightarrow> (None, call (LogError error) st3)
           | None \<Rightarrow> (None, st3)))"

text \<open>
  The trigger as a whole reacts to what happens around it: the session loop gets its next
  answers, the SDK hands a message or an error to the handlers of a subscription, the host
  calls \<open>closeFunction\<close>. Each reaction runs as one step. What the SDK does with an error
  thrown by a handler is outside the node and not modelled.
\<close>

datatype stimulus =
    LoopTurn loop_answers
  | MessageArrives receiver received_message
  | ErrorArrives receiver js_error
  | CloseRequested

definition trigger_step ::
  "runtime \<Rightarrow> broker \<Rightarrow> string \<Rightarrow> trigger_config \<Rightarrow> stimulus \<Rightarrow> trigger_state \<Rightarrow> trigger_state" where
  "trigger_step rt br now cfg s st =
     (case s of
        LoopTurn ans \<Rightarrow> startSessionHandling cfg [ans] st
      | MessageArrives rcv message \<Rightarrow> snd (processMessage rt br now cfg message rcv st)
      | ErrorArrives rcv err \<Rightarrow>
          (case rcv of
             PlainReceiver h \<Rightarrow> snd (processError br cfg err st)
           | SessionReceiver r \<Rightarrow> snd (sessionProcessError br cfg r err st))
      | CloseRequested \<Rightarrow> snd (closeFunction br st))"

fun trigger_run ::
  "runtime \<Rightarrow> broker \<Rightarrow> string \<Rightarrow> trigger_config \<Rightarrow> stimulus list \<Rightarrow> trigger_state \<Rightarrow> trigger_state" where
  "trigger_run rt br now cfg [] st = st"
| "trigger_run rt br now cfg (s # ss) st = trigger_run rt br now cfg ss (trigger_step rt br now cfg s st)"

text \<open>
  The session receivers that are live for a session id: registered under it in the map and
  not closed.
\<close>

definition live_receivers :: "string \<Rightarrow> trigger_state \<Rightarrow> session_receiver list" where
  "live_receivers sid st =
     (case sessionReceiverManager st of
        None \<Rightarrow> []
      | Some activeReceivers \<Rightarrow>
          map snd (filter (\<lambda>(k, r). k = sid \<and> CloseReceiver (handle r) \<notin> set (calls st))
                     activeReceivers))"

text \<open>The calls of a given kind among the calls made.\<close>

fun is_complete :: "sdk_call \<Rightarrow> bool" where
  "is_complete (CompleteMessage h m) = True"
| "is_complete c = False"

fun is_accept :: "sdk_call \<Rightarrow> bool" where
  "is_accept (AcceptSession e sid ms) = True"
| "is_accept (AcceptNextSession e ms) = True"
| "is_accept c = False"

fun is_close :: "sdk_call \<Rightarrow> bool" where
  "is_close (CloseReceiver h) = True"
| "is_close CloseClient = True"
| "is_close c = False"

fun is_emit :: "sdk_call \<Rightarrow> bool" where
  "is_emit (Emit item) = True"
| "is_emit c = False"

text \<open>The entries of the map, none while the manager is \<open>null\<close>.\<close>

definition registered :: "trigger_state \<Rightarrow> (string \<times> session_receiver) list" where
  "registered st = (case sessionReceiverManager st of None \<Rightarrow> [] | Some activeReceivers \<Rightarrow> activeReceivers)"

text \<open>The map holds one entry per session id.\<close>

definition registry_ok :: "trigger_state \<Rightarrow> bool" where
  "registry_ok st = distinct (map fst (registered st))"

text \<open>The close calls for the entries of the map, in its order.\<close>

definition close_calls :: "(string \<times> session_receiver) list \<Rightarrow> sdk_call list" where
  "close_calls activeReceivers = map (\<lambda>(sid, r). CloseReceiver (handle r)) activeReceivers"

section \<open>The action node: receiving\<close>

text \<open>
  The node parameters of \<open>receiveMessages\<close> on a queue (the parameters \<open>sessionMode\<close> and
  \<open>sessionTimeout\<close> of the action node are named \<open>receiveSessionMode\<close> and
  \<open>receiveSessionTimeout\<close> here), and what the broker answers in one run.
\<close>

record receive_params =
  maxMessageCount :: nat
  maxWaitTimeInSeconds :: nat
  receiveMode :: string
  receiveSessionMode :: string
  receiveSessionId :: string
  receiveSessionTimeout :: nat
  manageSessionState :: bool
  newSessionState :: string

record receive_answers =
  accepted :: accept_reply
  created :: nat
  state_read :: "js_error + jsval"
  received :: "js_error + received_message list"
  complete_fails :: "received_message \<Rightarrow> js_error option"
  state_write_fails :: "js_error option"
  receiver_close_fails :: "js_error option"

text \<open>
  The receiver is accepted for a session or created plain. The result is its handle,
  \<open>isSessionReceiver\<close> and \<open>currentSessionId\<close>, or the error thrown.
\<close>

definition acceptReceiver ::
  "receive_answers \<Rightarrow> string \<Rightarrow> receive_params \<Rightarrow> exec_state
    \<Rightarrow> (js_error + nat \<times> bool \<times> string option) \<times> exec_state" where
  "acceptReceiver ans queue p st =
     (if receiveSessionMode p = ''specific'' then
        (let st1 = call (AcceptSession queue (receiveSessionId p) (receiveSessionTimeout p * 1000)) st in
         case accepted ans of
           Accepted r \<Rightarrow> (Inr (handle r, True, Some (receiveSessionId p)), st1)
         | Rejected sessionError \<Rightarrow>
             (Inl (NodeOperationError
                    (''Failed to accept session '' @ [CHR 0x27] @ receiveSessionId p @ [CHR 0x27] @
                     '': '' @ error_message sessionError)),
              call (LogError sessionError) st1))
      else if receiveSessionMode p = ''next'' then
        (let st1 = call (AcceptNextSession queue (receiveSessionTimeout p * 1000)) st in
         case accepted ans of
           Accepted r \<Rightarrow> (Inr (handle r, True, Some (receiverSessionId r)), st1)
         | Rejected sessionError \<Rightarrow>
             (Inl (NodeOperationError
                    (''No available sessions or failed to accept session: '' @
                     error_message sessionError)),
              call (LogError sessionError) st1))
      else (Inr (created ans, False, None), call (CreateReceiver queue (created ans)) st))"

text \<open>
  The session state is read once, before the messages are received, when the receiver is a
  session receiver and \<open>manageSessionState\<close> is set; a failed read leaves \<open>null\<close>.
\<close>

definition readSessionState ::
  "receive_answers \<Rightarrow> receive_params \<Rightarrow> nat \<Rightarrow> bool \<Rightarrow> exec_state \<Rightarrow> jsval \<times> exec_state" where
  "readSessionState ans p h isSessionReceiver st =
     (if isSessionReceiver \<and> receiveSessionMode p \<noteq> ''none'' \<and> manageSessionState p then
        (let st1 = call (GetSessionState h) st in
         case state_read ans of
           Inr currentSessionState \<Rightarrow> (currentSessionState, st1)
         | Inl stateError \<Rightarrow> (JNull, call (LogError stateError) st1))
      else (JNull, st))"

text \<open>The record built for one message.\<close>

definition receive_result ::
  "received_message \<Rightarrow> jsval \<Rightarrow> bool \<Rightarrow> string option \<Rightarrow> jsval \<Rightarrow> jsval" where
  "receive_result message body isSessionReceiver currentSessionId currentSessionState =
     JObj ([(''messageId'', rm_messageId message),
            (''body'', body),
            (''contentType'', rm_contentType message),
            (''enqueuedTimeUtc'', rm_enqueuedTimeUtc message),
            (''applicationProperties'', rm_applicationProperties message),
            (''deliveryCount'', rm_deliveryCount message),
            (''sequenceNumber'', sequenceNumber_toString (rm_sequenceNumber message)),
            (''sessionId'', rm_sessionId message)] @
           (case currentSessionId of
              Some sid \<Rightarrow>
                if isSessionReceiver \<and> sid \<noteq> [] then
                  [(''sessionInfo'',
                    JObj [(''sessionId'', JStr sid), (''sessionState'', currentSessionState),
                          (''isSessionMessage'', JBool True)])]
                else []
            | None \<Rightarrow> []))"

text \<open>
  The loop over the received messages: normalize the body, build the record, push it, and
  under \<open>peekLock\<close> complete the message. An error ends the loop.
\<close>

fun receive_loop ::
  "runtime \<Rightarrow> receive_answers \<Rightarrow> receive_params \<Rightarrow> nat \<Rightarrow> bool \<Rightarrow> string option \<Rightarrow> jsval
    \<Rightarrow> received_message list \<Rightarrow> exec_state \<Rightarrow> js_error option \<times> exec_state" where
  "receive_loop rt ans p h isSessionReceiver currentSessionId currentSessionState [] st = (None, st)"
| "receive_loop rt ans p h isSessionReceiver currentSessionId currentSessionState (message # rest) st =
     (case normalizeBody rt (rm_body message) of
        Inl e \<Rightarrow> (Some e, st)
      | Inr body \<Rightarrow>
          (let st1 = push (receive_result message body isSessionReceiver currentSessionId
                             currentSessionState) st in
           if receiveMode p = ''peekLock'' then
             (let st2 = call (CompleteMessage h (rm_messageId message)) st1 in
              case complete_fails ans message of
                Some e \<Rightarrow> (Some e, st2)
              | None \<Rightarrow>
                  receive_loop rt ans p h isSessionReceiver currentSessionId currentSessionState rest st2)
           else receive_loop rt ans p h isSessionReceiver currentSessionId currentSessionState rest st1))"

text \<open>The new session state is written after the loop, when one is given.\<close>

definition writeSessionState ::
  "runtime \<Rightarrow> receive_answers \<Rightarrow> receive_params \<Rightarrow> nat \<Rightarrow> bool \<Rightarrow> exec_state
    \<Rightarrow> js_error option \<times> exec_state" where
  "writeSessionState rt ans p h isSessionReceiver st =
     (if isSessionReceiver \<and> receiveSessionMode p \<noteq> ''none'' \<and> manageSessionState p \<and>
         newSessionState p \<noteq> [] \<and> js_trim (newSessionState p) \<noteq> [] then
        (case JSON_parse rt (newSessionState p) of
           Inl stateError \<Rightarrow>
             (Some (NodeOperationError
                     (''Failed to update session state: '' @ error_message stateError)),
              call (LogError stateError) st)
         | Inr stateObject \<Rightarrow>
             (let st1 = call (SetSessionState h stateObject) st in
              case state_write_fails ans of
                Some stateError \<Rightarrow>
                  (Some (NodeOperationError
                          (''Failed to update session state: '' @ error_message stateError)),
                   call (LogError stateError) st1)
              | None \<Rightarrow> (None, st1)))
      else (None, st))"

text \<open>\<open>receiveMessages\<close> on a queue, inside the \<open>catch\<close> and \<open>finally\<close> of \<open>execute\<close>.\<close>

definition queue_receiveMessages ::
  "runtime \<Rightarrow> receive_answers \<Rightarrow> string \<Rightarrow> string \<Rightarrow> receive_params \<Rightarrow> js_error option \<times> exec_state" where
  "queue_receiveMessages rt ans protocol queue p =
     execute_guard protocol
       (if protocol \<noteq> ''sdk'' then
          (Some (NodeOperationError ''Receive messages is only supported with Azure SDK protocol''),
           \<lparr>calls = [], returnData = []\<rparr>)
        else
          (case acceptReceiver ans queue p \<lparr>calls = [], returnData = []\<rparr> of
             (Inl e, st1) \<Rightarrow> (Some e, st1)
           | (Inr (h, isSessionReceiver, currentSessionId), st1) \<Rightarrow>
               (case readSessionState ans p h isSessionReceiver st1 of
                  (currentSessionState, st2) \<Rightarrow>
                    (let st3 = call (ReceiveMessages h (maxMessageCount p)
                                      (maxWaitTimeInSeconds p * 1000)) st2 in
                     case received ans of
                       Inl e \<Rightarrow> (Some e, st3)
                     | Inr messages \<Rightarrow>
                         (case receive_loop rt ans p h isSessionReceiver currentSessionId
                                 currentSessionState messages st3 of
                            (Some e, st4) \<Rightarrow> (Some e, st4)
                          | (None, st4) \<Rightarrow>
                              (case writeSessionState rt ans p h isSessionReceiver st4 of
                                 (Some e, st5) \<Rightarrow> (Some e, st5)
                               | (None, st5) \<Rightarrow>
                                   (let st6 = call (CloseReceiver h) st5 in
                                    case receiver_close_fails ans of
                                      Some e \<Rightarrow> (Some e, st6)
                                    | None \<Rightarrow> (None, st6))))))))"

text \<open>
  The calls the loop makes for the messages when nothing fails: for each message the push of
  its record and, under \<open>peekLock\<close>, its completion.
\<close>

definition delivery_calls ::
  "runtime \<Rightarrow> receive_params \<Rightarrow> nat \<Rightarrow> bool \<Rightarrow> string option \<Rightarrow> jsval \<Rightarrow> received_message
    \<Rightarrow> sdk_call list" where
  "delivery_calls rt p h isSessionReceiver currentSessionId currentSessionState message =
     (case normalizeBody rt (rm_body message) of
        Inl e \<Rightarrow> []
      | Inr body \<Rightarrow>
          PushReturnData (receive_result message body isSessionReceiver currentSessionId
                            currentSessionState) #
          (if receiveMode p = ''peekLock'' then [CompleteMessage h (rm_messageId message)] else []))"

section \<open>Examples to compute with\<close>

text \<open>
  A trigger on the queue \<open>orders\<close> with a given session mode and completion policy; a broker
  for which nothing fails; a broker whose sessions have no state yet, so that
  \<open>getSessionState\<close> rejects; two session receivers for the session \<open>S1\<close>; and a message with
  the body \<open>hello\<close>.
\<close>

definition queue_config :: "string \<Rightarrow> bool \<Rightarrow> trigger_config" where
  "queue_config mode auto =
     \<lparr> resource = ''queue'', queueName = ''orders'', topicName = [], subscriptionName = [],
       sessionMode = mode, specificSessionId = ''S1'', sessionTimeout = 60,
       autoComplete = auto, maxConcurrentCalls = 1 \<rparr>"

definition quiet_broker :: broker where
  "quiet_broker =
     \<lparr> close_fails = (\<lambda>h. None), client_close_fails = None,
       getSessionState = (\<lambda>h. Inr JNull) \<rparr>"

definition stateless_broker :: broker where
  "stateless_broker =
     \<lparr> close_fails = (\<lambda>h. None), client_close_fails = None,
       getSessionState = (\<lambda>h. Inl (SdkError ''session state not found'')) \<rparr>"

definition receiver_1 :: session_receiver where
  "receiver_1 = \<lparr> handle = 1, receiverSessionId = ''S1'' \<rparr>"

definition receiver_2 :: session_receiver where
  "receiver_2 = \<lparr> handle = 2, receiverSessionId = ''S1'' \<rparr>"

definition hello_message :: received_message where
  "hello_message =
     \<lparr> rm_messageId = JStr ''m-1'', rm_body = JStr ''hello'', rm_contentType = JStr ''text/plain'',
       rm_enqueuedTimeUtc = JStr ''2026-02-05T12:00:00.000Z'', rm_applicationProperties = JUndefined,
       rm_deliveryCount = JNum 1, rm_sequenceNumber = Some 1, rm_sessionId = JUndefined \<rparr>"

definition accepts :: "session_receiver \<Rightarrow> loop_answers" where
  "accepts r = \<lparr> accept_reply = Accepted r, subscribe_throws = None \<rparr>"

definition rejects :: "js_error \<Rightarrow> loop_answers" where
  "rejects e = \<lparr> accept_reply = Rejected e, subscribe_throws = None \<rparr>"

definition peek_lock_params :: "string \<Rightarrow> receive_params" where
  "peek_lock_params mode =
     \<lparr> maxMessageCount = 10, maxWaitTimeInSeconds = 30, receiveMode = ''peekLock'',
       receiveSessionMode = mode, receiveSessionId = ''S1'', receiveSessionTimeout = 60,
       manageSessionState = True, newSessionState = [] \<rparr>"

definition stateless_answers :: "received_message list \<Rightarrow> receive_answers" where
  "stateless_answers messages =
     \<lparr> accepted = Accepted receiver_1, created = 0,
       state_read = Inl (SdkError ''session state not found''),
       received = Inr messages, complete_fails = (\<lambda>m. None), state_write_fails = None,
       receiver_close_fails = None \<rparr>"

text \<open>Items to send, with a given body and nothing else set.\<close>

definition item_with_body :: "jsval \<Rightarrow> send_params" where
  "item_with_body v =
     \<lparr> messageBody = v, messageProperties = None, contentType = ''application/json'',
       messageId = [], sessionId = [] \<rparr>"

definition message_with_body :: "jsval \<Rightarrow> service_bus_message" where
  "message_with_body v =
     \<lparr> msg_body = v, msg_contentType = ''application/json'', msg_messageId = None,
       msg_sessionId = None, msg_applicationProperties = None \<rparr>"

section \<open>Properties of normalization\<close>

lemma isBufferWrapper_simps [simp]:
  "\<not> isBufferWrapper (JStr s)" "\<not> isBufferWrapper (JBuffer bs)"
  "\<not> isBufferWrapper JNull" "\<not> isBufferWrapper JUndefined"
  by (simp_all add: isBufferWrapper_def)

lemma normalizeBody_string:
  "normalizeBody rt (JStr s) =
     Inr (if startsWith (js_trim s) ''{''
          then (case JSON_parse rt s of Inr parsed \<Rightarrow> parsed | Inl parseError \<Rightarrow> JStr s)
          else JStr s)"
  by (simp add: normalizeBody_def decodeBuffer_def parseJsonBody_def)

lemma normalizeBody_buffer:
  "normalizeBody rt (JBuffer bs) = normalizeBody rt (JStr (toString_utf8 rt bs))"
  by (simp add: normalizeBody_def decodeBuffer_def)

lemma normalizeBody_wrapper:
  "isBufferWrapper b \<Longrightarrow> Buffer_from rt (get_prop b ''data'') = Inr bs \<Longrightarrow>
   normalizeBody rt b = normalizeBody rt (JStr (toString_utf8 rt bs))"
  by (simp add: normalizeBody_def decodeBuffer_def)

lemma normalizeBody_wrapper_throws:
  "isBufferWrapper b \<Longrightarrow> Buffer_from rt (get_prop b ''data'') = Inl e \<Longrightarrow>
   normalizeBody rt b = Inl e"
  by (simp add: normalizeBody_def decodeBuffer_def)

lemma normalizeBody_other:
  "\<not> isBufferWrapper b \<Longrightarrow> \<not> isBuffer b \<Longrightarrow> typeof b \<noteq> ''string'' \<Longrightarrow>
   normalizeBody rt b = Inr b"
  by (cases b) (simp_all add: normalizeBody_def decodeBuffer_def parseJsonBody_def)

lemma normalizeBody_plain_string:
  "\<not> startsWith (js_trim s) ''{'' \<Longrightarrow> normalizeBody rt (JStr s) = Inr (JStr s)"
  by (simp add: normalizeBody_string)

lemma normalize_idem:
  assumes po: "parses_objects rt" and n: "normalizeBody rt X = Inr Y" and nw: "\<not> isBufferWrapper Y"
  shows "normalizeBody rt Y = Inr Y"
proof -
  from n obtain d where d: "decodeBuffer rt X = Inr d" and Y: "Y = parseJsonBody rt d"
    by (auto simp: normalizeBody_def split: sum.splits)
  show ?thesis
  proof (cases "\<exists>s. d = JStr s")
    case True
    then obtain s where s: "d = JStr s" by blast
    show ?thesis
    proof (cases "startsWith (js_trim s) ''{'' \<and> (\<exists>v. JSON_parse rt s = Inr v)")
      case True
      then obtain v where v: "JSON_parse rt s = Inr v" and sw: "startsWith (js_trim s) ''{''" by auto
      with po obtain kvs where "v = JObj kvs" unfolding parses_objects_def by blast
      with v sw s Y have "Y = JObj kvs" by (simp add: parseJsonBody_def)
      with nw show ?thesis by (simp add: normalizeBody_other)
    next
      case False
      with s Y have "Y = JStr s" by (auto simp: parseJsonBody_def split: sum.splits)
      with False show ?thesis by (auto simp: normalizeBody_string split: sum.splits)
    qed
  next
    case False
    then have ns: "typeof d \<noteq> ''string''" by (cases d) auto
    with Y have Yd: "Y = d" by (cases d) (auto simp: parseJsonBody_def)
    from d False have "\<not> isBuffer d"
      by (cases d) (auto simp: decodeBuffer_def split: if_splits sum.splits)
    with nw ns Yd show ?thesis by (simp add: normalizeBody_other)
  qed
qed

text \<open>The runtime used for the examples yields objects for texts that begin with a brace.\<close>

lemma json_members_object:
  "json_members n s acc = Some (v, r) \<Longrightarrow> \<exists>kvs. v = JObj kvs"
proof (induction n arbitrary: s acc)
  case 0
  then show ?case by simp
next
  case (Suc n)
  from Suc.prems show ?case
    by (simp split: list.splits if_splits option.splits prod.splits) (auto dest: Suc.IH)
qed

lemma trim_prefix:
  assumes "startsWith (js_trim s) ''{''"
  shows "\<exists>r. dropWhile isWhiteSpace s = CHR ''{'' # r"
proof -
  let ?t = "dropWhile isWhiteSpace s"
  have "rev ?t = takeWhile isWhiteSpace (rev ?t) @ dropWhile isWhiteSpace (rev ?t)" by simp
  then have "?t = js_trim s @ rev (takeWhile isWhiteSpace (rev ?t))"
    unfolding js_trim_def by (metis rev_append rev_rev_ident)
  moreover from assms obtain x where "js_trim s = CHR ''{'' # x"
    by (cases "js_trim s") (auto simp: startsWith_def)
  ultimately show ?thesis by (metis append_Cons)
qed

lemma json_ws_white: "json_ws c \<Longrightarrow> isWhiteSpace c"
  by (auto simp: json_ws_def isWhiteSpace_def)

lemma dropWhile_json_ws:
  "dropWhile isWhiteSpace s = CHR ''{'' # r \<Longrightarrow>
   \<exists>c r'. dropWhile json_ws s = c # r' \<and> (c = CHR ''{'' \<or> isWhiteSpace c \<and> \<not> json_ws c)"
  by (induction s) (auto split: if_splits dest: json_ws_white)

lemma white_not_json:
  assumes "isWhiteSpace c" "\<not> json_ws c"
  shows "c \<noteq> CHR ''{''" "c \<noteq> CHR ''[''" "c \<noteq> CHR 0x22" "c \<noteq> CHR ''t''" "c \<noteq> CHR ''f''"
    "c \<noteq> CHR ''n''" "c \<noteq> CHR ''-''" "c \<noteq> CHR ''0''" "\<not> is_digit c"
  using assms by (auto simp: isWhiteSpace_def json_ws_def is_digit_def)

lemma json_value_white:
  assumes "dropWhile json_ws s = c # r" "isWhiteSpace c" "\<not> json_ws c"
  shows "json_value n s = None"
proof (cases n)
  case 0
  then show ?thesis by simp
next
  case (Suc m)
  show ?thesis
    unfolding Suc json_value.simps
    using assms(1) white_not_json[OF assms(2,3)] by (simp add: json_nat_def)
qed

lemma json_value_brace:
  assumes "dropWhile json_ws s = CHR ''{'' # r" "json_value n s = Some (v, r')"
  shows "\<exists>kvs. v = JObj kvs"
proof (cases n)
  case 0
  with assms show ?thesis by simp
next
  case (Suc m)
  from assms(2) show ?thesis
    unfolding Suc json_value.simps using assms(1)
    by (simp split: list.splits if_splits) (auto dest: json_members_object)
qed

lemma node_runtime_parses_objects: "parses_objects node_runtime"
  unfolding parses_objects_def
proof (intro allI impI)
  fix s v
  assume sw: "startsWith (js_trim s) ''{''" and p: "JSON_parse node_runtime s = Inr v"
  from p obtain r where jv: "json_value (Suc (length s)) s = Some (v, r)"
    unfolding node_runtime_def node_JSON_parse_def
    by (simp split: option.splits if_splits prod.splits)
  from trim_prefix[OF sw] obtain r0 where "dropWhile isWhiteSpace s = CHR ''{'' # r0" by blast
  from dropWhile_json_ws[OF this] obtain c r' where
    c: "dropWhile json_ws s = c # r'" "c = CHR ''{'' \<or> isWhiteSpace c \<and> \<not> json_ws c" by blast
  from c(2) show "\<exists>kvs. v = JObj kvs"
  proof
    assume "c = CHR ''{''"
    with c(1) jv show ?thesis by (blast dest: json_value_brace)
  next
    assume "isWhiteSpace c \<and> \<not> json_ws c"
    with c(1) have "json_value (Suc (length s)) s = None" by (blast intro: json_value_white)
    with jv show ?thesis by simp
  qed
qed

text \<open>
  C2, as the claim states it, fails: a binary body is decoded and the decoded text is then
  treated like any string, so a Buffer (or a Buffer wrapper) holding the text \<open>{}\<close> is
  normalized to the parsed object, not to the decoded string.
\<close>

theorem normalize_binary_json_counterexample:
  "normalizeBody node_runtime (JBuffer [123, 125]) = Inr (JObj []) \<and>
   normalizeBody node_runtime (JBuffer [123, 125]) \<noteq>
     Inr (JStr (toString_utf8 node_runtime [123, 125])) \<and>
   normalizeBody node_runtime
     (JObj [(''type'', JStr ''Buffer''), (''data'', JArr [JNum 123, JNum 125])]) = Inr (JObj [])"
  by code_simp

text \<open>
  C2, amended. For every runtime and every body: a Buffer, and a Buffer wrapper whose data
  \<open>Buffer.from\<close> accepts, is decoded as UTF-8 and the decoded text is normalized as a string
  body; a string whose trimmed form starts with a brace becomes the result of \<open>JSON.parse\<close>
  when parsing succeeds and stays the same string when parsing fails, without an error; a
  string that does not start with a brace, and any other body that is neither a Buffer nor a
  Buffer wrapper, passes through unchanged.
\<close>

theorem normalizeBody_cases:
  "normalizeBody rt (JBuffer bs) = normalizeBody rt (JStr (toString_utf8 rt bs)) \<and>
   (isBufferWrapper b \<and> Buffer_from rt (get_prop b ''data'') = Inr bs \<longrightarrow>
      normalizeBody rt b = normalizeBody rt (JStr (toString_utf8 rt bs))) \<and>
   (startsWith (js_trim s) ''{'' \<and> JSON_parse rt s = Inr parsed \<longrightarrow>
      normalizeBody rt (JStr s) = Inr parsed) \<and>
   (startsWith (js_trim s) ''{'' \<and> JSON_parse rt s = Inl e \<longrightarrow>
      normalizeBody rt (JStr s) = Inr (JStr s)) \<and>
   (\<not> startsWith (js_trim s) ''{'' \<longrightarrow> normalizeBody rt (JStr s) = Inr (JStr s)) \<and>
   (\<not> isBufferWrapper b \<and> \<not> isBuffer b \<and> typeof b \<noteq> ''string'' \<longrightarrow>
      normalizeBody rt b = Inr b)"
  using normalizeBody_buffer [of rt bs] normalizeBody_wrapper [of b rt bs]
    normalizeBody_string [of rt s] normalizeBody_other [of b rt]
  by simp

theorem normalizeBody_cases_witness:
  "normalizeBody node_runtime (JBuffer [104, 105]) = Inr (JStr ''hi'') \<and>
   normalizeBody node_runtime
     (JObj [(''type'', JStr ''Buffer''), (''data'', JArr [JNum 104, JNum 105])]) =
     Inr (JStr ''hi'') \<and>
   normalizeBody node_runtime (JStr text_a1) = Inr (JObj [(''a'', JNum 1)]) \<and>
   normalizeBody node_runtime (JStr ''{not json'') = Inr (JStr ''{not json'') \<and>
   normalizeBody node_runtime (JStr ''hello'') = Inr (JStr ''hello'') \<and>
   normalizeBody node_runtime (JNum 7) = Inr (JNum 7)"
proof -
  have w: "isBufferWrapper (JObj [(''type'', JStr ''Buffer''), (''data'', JArr [JNum 104, JNum 105])])"
    by (simp add: isBufferWrapper_def)
  have f: "Buffer_from node_runtime
             (get_prop (JObj [(''type'', JStr ''Buffer''), (''data'', JArr [JNum 104, JNum 105])]) ''data'') =
           Inr [104, 105]"
    by (simp add: node_runtime_def)
  have a: "startsWith (js_trim text_a1) ''{''"
    by (simp add: text_a1_def js_trim_def isWhiteSpace_def startsWith_def)
  have pa: "JSON_parse node_runtime text_a1 = Inr (JObj [(''a'', JNum 1)])"
    by (simp add: node_runtime_def) code_simp
  have ob: "startsWith (js_trim ''{not json'') ''{''"
    by (simp add: js_trim_def isWhiteSpace_def startsWith_def)
  have po: "JSON_parse node_runtime ''{not json'' = Inl (SyntaxError ''Unexpected token'')"
    by (simp add: node_runtime_def) code_simp
  have h: "\<not> startsWith (js_trim ''hello'') ''{''"
    by (simp add: js_trim_def isWhiteSpace_def startsWith_def)
  have hi: "normalizeBody node_runtime (JStr (toString_utf8 node_runtime [104, 105])) = Inr (JStr ''hi'')"
    by code_simp
  have n: "\<not> isBufferWrapper (JNum 7) \<and> \<not> isBuffer (JNum 7) \<and> typeof (JNum 7) \<noteq> ''string''"
    by (simp add: isBufferWrapper_def)
  show ?thesis
    using normalizeBody_cases
            [of node_runtime "[104, 105]"
                "JObj [(''type'', JStr ''Buffer''), (''data'', JArr [JNum 104, JNum 105])]"
                text_a1 "JObj [(''a'', JNum 1)]"]
          normalizeBody_cases [of node_runtime "[104, 105]" "JNum 7" "''{not json''" JNull
                "SyntaxError ''Unexpected token''"]
          normalizeBody_cases [of node_runtime "[104, 105]" "JNum 7" "''hello''" JNull]
          w f a pa ob po h hi n
    by simp
qed

text \<open>
  C9, as the claim states it, fails: the text of a serialized Buffer is parsed to a Buffer
  wrapper, and normalizing that object again decodes it. Normalizing twice gives the string
  \<open>hi\<close> where normalizing once gives the object.
\<close>

theorem normalize_twice_counterexample:
  "normalizeBody node_runtime (JStr text_wrapper_hi) =
     Inr (JObj [(''type'', JStr ''Buffer''), (''data'', JArr [JNum 104, JNum 105])]) \<and>
   normalizeBody node_runtime
     (JObj [(''type'', JStr ''Buffer''), (''data'', JArr [JNum 104, JNum 105])]) =
     Inr (JStr ''hi'')"
proof
  show "normalizeBody node_runtime (JStr text_wrapper_hi) =
     Inr (JObj [(''type'', JStr ''Buffer''), (''data'', JArr [JNum 104, JNum 105])])"
    by code_simp
  show "normalizeBody node_runtime
     (JObj [(''type'', JStr ''Buffer''), (''data'', JArr [JNum 104, JNum 105])]) =
     Inr (JStr ''hi'')"
    by code_simp
qed

text \<open>
  C9, amended. Normalization is a function of the runtime and the body alone. For a runtime
  whose \<open>JSON.parse\<close> yields objects for texts that begin with a brace, normalizing a
  normalized body again changes nothing, unless the normalized body is a Buffer wrapper (an
  object whose \<open>type\<close> is \<open>'Buffer'\<close>); in particular an object that is not a Buffer wrapper
  is left as it is, since it is not a string.
\<close>

theorem normalizeBody_idempotent:
  "(parses_objects rt \<and> normalizeBody rt X = Inr Y \<and> \<not> isBufferWrapper Y \<longrightarrow>
      normalizeBody rt Y = Inr Y) \<and>
   (\<not> isBufferWrapper (JObj kvs) \<longrightarrow> normalizeBody rt (JObj kvs) = Inr (JObj kvs))"
  using normalize_idem [of rt X Y] normalizeBody_other [of "JObj kvs" rt] by simp

theorem normalizeBody_idempotent_witness:
  "parses_objects node_runtime \<and>
   normalizeBody node_runtime (JStr text_a1) = Inr (JObj [(''a'', JNum 1)]) \<and>
   \<not> isBufferWrapper (JObj [(''a'', JNum 1)]) \<and>
   normalizeBody node_runtime (JObj [(''a'', JNum 1)]) = Inr (JObj [(''a'', JNum 1)])"
proof -
  have n: "normalizeBody node_runtime (JStr text_a1) = Inr (JObj [(''a'', JNum 1)])"
    by code_simp
  have w: "\<not> isBufferWrapper (JObj [(''a'', JNum 1)])"
    by (simp add: isBufferWrapper_def)
  show ?thesis
    using normalizeBody_idempotent [of node_runtime "JStr text_a1" "JObj [(''a'', JNum 1)]" "[(''a'', JNum 1)]"]
      node_runtime_parses_objects n w
    by simp
qed

section \<open>Properties of sending\<close>

lemma typeof_string_iff: "typeof v = ''string'' \<longleftrightarrow> (\<exists>s. v = JStr s)"
  by (cases v) simp_all

lemma isEmptyMessageBody_cases:
  "isEmptyMessageBody v \<longleftrightarrow>
     v = JNull \<or> v = JUndefined \<or> (\<exists>s. v = JStr s \<and> js_trim s = []) \<or>
     typeof v \<notin> {''string'', ''number'', ''boolean'', ''object''}"
  by (cases v) (simp_all add: isEmptyMessageBody_def)

text \<open>The code's test and the specification's words describe the same bodies.\<close>

lemma isEmptyMessageBody_as_specified: "isEmptyMessageBody v = empty_as_specified v"
  by (cases v) (simp_all add: isEmptyMessageBody_def empty_as_specified_def)

lemma not_empty_zero_false_object:
  "\<not> isEmptyMessageBody (JNum 0)" "\<not> isEmptyMessageBody (JBool False)"
  "\<not> isEmptyMessageBody (JObj kvs)"
  by (simp_all add: isEmptyMessageBody_def)

lemma buildMessage_body: "msg_body (buildMessage p) = messageBody p"
  by (simp add: buildMessage_def)

subsection \<open>One turn of the loop\<close>

lemma queue_send_item_empty:
  "isEmptyMessageBody (messageBody p) \<Longrightarrow>
   queue_send_item protocol send_fails q now p st =
     (Some (NodeOperationError ''Message Body cannot be empty''), st)"
  by (simp add: queue_send_item_def)

lemma queue_send_item_sent:
  assumes "\<not> isEmptyMessageBody (messageBody p)" "protocol = ''sdk'' \<or> protocol = ''http''"
    "send_fails (buildMessage p) = None"
  shows "fst (queue_send_item protocol send_fails q now p st) = None"
    and "filter is_send (calls (snd (queue_send_item protocol send_fails q now p st))) =
           filter is_send (calls st) @ [queue_send_call protocol q (buildMessage p)]"
proof -
  have w: "(if sessionId p \<noteq> [] \<and> js_trim (sessionId p) \<noteq> []
            then (buildMessage p)\<lparr>msg_sessionId := Some (sessionId p)\<rparr> else buildMessage p) =
           buildMessage p"
    by (simp add: buildMessage_def)
  from assms show "fst (queue_send_item protocol send_fails q now p st) = None"
    by (auto simp: queue_send_item_def w Let_def)
  from assms
  show "filter is_send (calls (snd (queue_send_item protocol send_fails q now p st))) =
           filter is_send (calls st) @ [queue_send_call protocol q (buildMessage p)]"
    by (auto simp: queue_send_item_def queue_send_call_def w Let_def call_def push_def)
qed

lemma queue_send_item_other_error:
  assumes "\<not> isEmptyMessageBody (messageBody p)"
    "\<not> ((protocol = ''sdk'' \<or> protocol = ''http'') \<and> send_fails (buildMessage p) = None)"
  shows "\<exists>e. fst (queue_send_item protocol send_fails q now p st) = Some e \<and>
             e \<noteq> NodeOperationError ''Message Body cannot be empty''"
proof -
  have w: "(if sessionId p \<noteq> [] \<and> js_trim (sessionId p) \<noteq> []
            then (buildMessage p)\<lparr>msg_sessionId := Some (sessionId p)\<rparr> else buildMessage p) =
           buildMessage p"
    by (simp add: buildMessage_def)
  from assms show ?thesis
    by (auto simp: queue_send_item_def w Let_def split: option.splits)
qed

lemma topic_send_item_empty:
  "isEmptyMessageBody (messageBody p) \<Longrightarrow>
   topic_send_item send_fails t now p st =
     (Some (NodeOperationError ''Message Body cannot be empty''), st)"
  by (simp add: topic_send_item_def)

lemma topic_send_item_sent:
  assumes "\<not> isEmptyMessageBody (messageBody p)" "send_fails (buildMessage p) = None"
  shows "fst (topic_send_item send_fails t now p st) = None"
    and "filter is_send (calls (snd (topic_send_item send_fails t now p st))) =
           filter is_send (calls st) @ [SendMessages t (buildMessage p)]"
  using assms by (simp_all add: topic_send_item_def Let_def call_def push_def)

lemma topic_send_item_other_error:
  assumes "\<not> isEmptyMessageBody (messageBody p)" "send_fails (buildMessage p) \<noteq> None"
  shows "\<exists>e. fst (topic_send_item send_fails t now p st) = Some e \<and>
             e \<noteq> NodeOperationError ''Message Body cannot be empty''"
  using assms by (auto simp: topic_send_item_def Let_def split: option.splits)

subsection \<open>The loop over the items\<close>

text \<open>
  The loop throws the error for an empty body exactly when some item has an empty body and
  every item before the first such item has been sent without a failure.
\<close>

lemma queue_loop_empty_iff:
  "fst (send_loop (queue_send_item protocol send_fails q now) items st) =
     Some (NodeOperationError ''Message Body cannot be empty'') \<longleftrightarrow>
   (\<exists>p \<in> set items. isEmptyMessageBody (messageBody p)) \<and>
   (\<forall>p \<in> set (takeWhile (\<lambda>p. \<not> isEmptyMessageBody (messageBody p)) items).
      (protocol = ''sdk'' \<or> protocol = ''http'') \<and> send_fails (buildMessage p) = None)"
proof (induction items arbitrary: st)
  case Nil
  then show ?case by simp
next
  case (Cons p items)
  show ?case
  proof (cases "isEmptyMessageBody (messageBody p)")
    case True
    then show ?thesis by (simp add: queue_send_item_empty)
  next
    case False
    show ?thesis
    proof (cases "(protocol = ''sdk'' \<or> protocol = ''http'') \<and> send_fails (buildMessage p) = None")
      case True
      then have ok: "protocol = ''sdk'' \<or> protocol = ''http''" "send_fails (buildMessage p) = None"
        by simp_all
      obtain st1 where s: "queue_send_item protocol send_fails q now p st = (None, st1)"
        using queue_send_item_sent(1) [of p protocol send_fails q now st] False ok
        by (cases "queue_send_item protocol send_fails q now p st") simp
      from Cons.IH [of st1] False True show ?thesis
        by (simp add: s)
    next
      case other: False
      from queue_send_item_other_error [of p protocol send_fails q now st] False other
      obtain e st1 where s: "queue_send_item protocol send_fails q now p st = (Some e, st1)"
        and e: "e \<noteq> NodeOperationError ''Message Body cannot be empty''"
        by (cases "queue_send_item protocol send_fails q now p st") auto
      from False other e show ?thesis
        by (auto simp: s)
    qed
  qed
qed

lemma topic_loop_empty_iff:
  "fst (send_loop (topic_send_item send_fails t now) items st) =
     Some (NodeOperationError ''Message Body cannot be empty'') \<longleftrightarrow>
   (\<exists>p \<in> set items. isEmptyMessageBody (messageBody p)) \<and>
   (\<forall>p \<in> set (takeWhile (\<lambda>p. \<not> isEmptyMessageBody (messageBody p)) items).
      send_fails (buildMessage p) = None)"
proof (induction items arbitrary: st)
  case Nil
  then show ?case by simp
next
  case (Cons p items)
  show ?case
  proof (cases "isEmptyMessageBody (messageBody p)")
    case True
    then show ?thesis by (simp add: topic_send_item_empty)
  next
    case False
    show ?thesis
    proof (cases "send_fails (buildMessage p) = None")
      case True
      obtain st1 where s: "topic_send_item send_fails t now p st = (None, st1)"
        using topic_send_item_sent(1) [of p send_fails t now st] False True
        by (cases "topic_send_item send_fails t now p st") simp
      from Cons.IH [of st1] False True show ?thesis
        by (simp add: s)
    next
      case other: False
      from topic_send_item_other_error [of p send_fails t now st] False other
      obtain e st1 where s: "topic_send_item send_fails t now p st = (Some e, st1)"
        and e: "e \<noteq> NodeOperationError ''Message Body cannot be empty''"
        by (cases "topic_send_item send_fails t now p st") auto
      from False other e show ?thesis
        by (auto simp: s)
    qed
  qed
qed

text \<open>When no item is empty and no send fails, the loop sends every item, in order.\<close>

lemma queue_loop_sends_all:
  assumes "protocol = ''sdk'' \<or> protocol = ''http''"
    and "\<forall>p \<in> set items. \<not> isEmptyMessageBody (messageBody p) \<and> send_fails (buildMessage p) = None"
  shows "fst (send_loop (queue_send_item protocol send_fails q now) items st) = None \<and>
         filter is_send (calls (snd (send_loop (queue_send_item protocol send_fails q now) items st))) =
           filter is_send (calls st) @ map (\<lambda>p. queue_send_call protocol q (buildMessage p)) items"
  using assms(2)
proof (induction items arbitrary: st)
  case Nil
  then show ?case by simp
next
  case (Cons p items)
  then have ne: "\<not> isEmptyMessageBody (messageBody p)" and ok: "send_fails (buildMessage p) = None"
    by simp_all
  obtain st1 where s: "queue_send_item protocol send_fails q now p st = (None, st1)"
    using queue_send_item_sent(1) [of p protocol send_fails q now st] ne assms(1) ok
    by (cases "queue_send_item protocol send_fails q now p st") simp
  have c: "filter is_send (calls st1) =
             filter is_send (calls st) @ [queue_send_call protocol q (buildMessage p)]"
    using queue_send_item_sent(2) [of p protocol send_fails q now st] ne assms(1) ok by (simp add: s)
  from Cons.IH [of st1] Cons.prems show ?case
    by (simp add: s c)
qed

lemma topic_loop_sends_all:
  assumes "\<forall>p \<in> set items. \<not> isEmptyMessageBody (messageBody p) \<and> send_fails (buildMessage p) = None"
  shows "fst (send_loop (topic_send_item send_fails t now) items st) = None \<and>
         filter is_send (calls (snd (send_loop (topic_send_item send_fails t now) items st))) =
           filter is_send (calls st) @ map (\<lambda>p. SendMessages t (buildMessage p)) items"
  using assms
proof (induction items arbitrary: st)
  case Nil
  then show ?case by simp
next
  case (Cons p items)
  then have ne: "\<not> isEmptyMessageBody (messageBody p)" and ok: "send_fails (buildMessage p) = None"
    by simp_all
  obtain st1 where s: "topic_send_item send_fails t now p st = (None, st1)"
    using topic_send_item_sent(1) [of p send_fails t now st] ne ok
    by (cases "topic_send_item send_fails t now p st") simp
  have c: "filter is_send (calls st1) = filter is_send (calls st) @ [SendMessages t (buildMessage p)]"
    using topic_send_item_sent(2) [of p send_fails t now st] ne ok by (simp add: s)
  from Cons.IH [of st1] Cons.prems show ?case
    by (simp add: s c)
qed

subsection \<open>The operation\<close>

lemma execute_guard_error:
  "fst (execute_guard protocol r) = map_option operation_failed (fst r)"
  by (cases r) (simp add: execute_guard_def operation_failed_def Let_def split: option.split)

lemma execute_guard_sends:
  "filter is_send (calls (snd (execute_guard protocol r))) = filter is_send (calls (snd r))"
  by (cases r) (simp add: execute_guard_def Let_def call_def split: option.split)

lemma queue_try_error:
  "fst (queue_sendMessage_try protocol send_fails q now items) =
   fst (send_loop (queue_send_item protocol send_fails q now) items
          \<lparr>calls = (if protocol = ''sdk'' then [CreateSender q] else []), returnData = []\<rparr>)"
  by (simp add: queue_sendMessage_try_def split: prod.split option.split)

lemma queue_try_sends:
  "filter is_send (calls (snd (queue_sendMessage_try protocol send_fails q now items))) =
   filter is_send (calls (snd (send_loop (queue_send_item protocol send_fails q now) items
          \<lparr>calls = (if protocol = ''sdk'' then [CreateSender q] else []), returnData = []\<rparr>)))"
  by (simp add: queue_sendMessage_try_def call_def split: prod.split option.split)

lemma topic_try_error:
  "fst (topic_sendMessage_try ''sdk'' send_fails t now items) =
   fst (send_loop (topic_send_item send_fails t now) items
          \<lparr>calls = [CreateSender t], returnData = []\<rparr>)"
  by (simp add: topic_sendMessage_try_def split: prod.split option.split)

lemma topic_try_sends:
  "filter is_send (calls (snd (topic_sendMessage_try ''sdk'' send_fails t now items))) =
   filter is_send (calls (snd (send_loop (topic_send_item send_fails t now) items
          \<lparr>calls = [CreateSender t], returnData = []\<rparr>)))"
  by (simp add: topic_sendMessage_try_def call_def split: prod.split option.split)

lemma topic_try_guard:
  "protocol \<noteq> ''sdk'' \<Longrightarrow>
   topic_sendMessage_try protocol send_fails t now items =
     (Some (NodeOperationError ''Topic operations are only supported with Azure SDK protocol''),
      \<lparr>calls = [], returnData = []\<rparr>)"
  by (simp add: topic_sendMessage_try_def)

text \<open>
  C10, as the claim states it, fails: the topic branch begins with a guard on the protocol.
  With the protocol \<open>http\<close>, \<open>sendMessage\<close> on a topic with a \<open>null\<close> body raises the error of
  the guard, not the error for an empty body, and the item is never looked at.
\<close>

theorem topic_http_null_body_counterexample:
  "empty_as_specified (messageBody (item_with_body JNull)) \<and>
   topic_sendMessage ''http'' (\<lambda>m. None) ''events'' ''2026-02-05T12:00:00.000Z''
     [item_with_body JNull] =
     (Some (NodeOperationError
        ''Azure Service Bus operation failed: Topic operations are only supported with Azure SDK protocol''),
      \<lparr>calls = [LogError (NodeOperationError
                   ''Topic operations are only supported with Azure SDK protocol'')],
        returnData = []\<rparr>)"
  by (simp add: topic_sendMessage_def topic_sendMessage_try_def execute_guard_def Let_def
      call_def item_with_body_def empty_as_specified_def)

text \<open>
  C10, amended. For every \<open>sendMessage\<close> execution that gets to its items (on a queue with any
  protocol, on a topic with the protocol \<open>sdk\<close>; on a topic with another protocol the guard
  refuses the operation whatever the bodies are), the \<open>try\<close> of the operation throws the
  error \<open>Message Body cannot be empty\<close> exactly when some item has a body that is \<open>null\<close>,
  \<open>undefined\<close>, a string whose trimmed form is empty, or a value that is not a string, a
  number, a boolean or an object, and every item before the first such item has been sent
  without a failure. The operation raises what its \<open>try\<close> throws behind the prefix
  \<open>Azure Service Bus operation failed:\<close>. Consequently the number 0, the boolean \<open>false\<close> and
  every object, the empty one too, are not rejected as empty: when no item is empty and no
  send fails, the operation raises nothing and every item is handed to the transport, in
  order, in a message that carries its body.
\<close>

theorem sendMessage_empty_body_operation:
  "(fst (queue_sendMessage_try protocol send_fails q now items) =
      Some (NodeOperationError ''Message Body cannot be empty'') \<longleftrightarrow>
    (\<exists>p \<in> set items. empty_as_specified (messageBody p)) \<and>
    (\<forall>p \<in> set (takeWhile (\<lambda>p. \<not> empty_as_specified (messageBody p)) items).
       (protocol = ''sdk'' \<or> protocol = ''http'') \<and> send_fails (buildMessage p) = None)) \<and>
   (fst (topic_sendMessage_try ''sdk'' send_fails t now items) =
      Some (NodeOperationError ''Message Body cannot be empty'') \<longleftrightarrow>
    (\<exists>p \<in> set items. empty_as_specified (messageBody p)) \<and>
    (\<forall>p \<in> set (takeWhile (\<lambda>p. \<not> empty_as_specified (messageBody p)) items).
       send_fails (buildMessage p) = None)) \<and>
   (protocol \<noteq> ''sdk'' \<longrightarrow>
      fst (topic_sendMessage_try protocol send_fails t now items) =
        Some (NodeOperationError ''Topic operations are only supported with Azure SDK protocol'')) \<and>
   fst (queue_sendMessage protocol send_fails q now items) =
     map_option operation_failed (fst (queue_sendMessage_try protocol send_fails q now items)) \<and>
   fst (topic_sendMessage protocol send_fails t now items) =
     map_option operation_failed (fst (topic_sendMessage_try protocol send_fails t now items)) \<and>
   operation_failed (NodeOperationError ''Message Body cannot be empty'') =
     NodeOperationError ''Azure Service Bus operation failed: Message Body cannot be empty'' \<and>
   \<not> empty_as_specified (JNum 0) \<and> \<not> empty_as_specified (JBool False) \<and>
   \<not> empty_as_specified (JObj kvs) \<and>
   msg_body (buildMessage p0) = messageBody p0 \<and>
   ((protocol = ''sdk'' \<or> protocol = ''http'') \<and>
    (\<forall>p \<in> set items. \<not> empty_as_specified (messageBody p) \<and> send_fails (buildMessage p) = None) \<longrightarrow>
      fst (queue_sendMessage protocol send_fails q now items) = None \<and>
      filter is_send (calls (snd (queue_sendMessage protocol send_fails q now items))) =
        map (\<lambda>p. queue_send_call protocol q (buildMessage p)) items) \<and>
   ((\<forall>p \<in> set items. \<not> empty_as_specified (messageBody p) \<and> send_fails (buildMessage p) = None) \<longrightarrow>
      fst (topic_sendMessage ''sdk'' send_fails t now items) = None \<and>
      filter is_send (calls (snd (topic_sendMessage ''sdk'' send_fails t now items))) =
        map (\<lambda>p. SendMessages t (buildMessage p)) items)"
proof (intro conjI impI)
  show "fst (queue_sendMessage_try protocol send_fails q now items) =
      Some (NodeOperationError ''Message Body cannot be empty'') \<longleftrightarrow>
    (\<exists>p \<in> set items. empty_as_specified (messageBody p)) \<and>
    (\<forall>p \<in> set (takeWhile (\<lambda>p. \<not> empty_as_specified (messageBody p)) items).
       (protocol = ''sdk'' \<or> protocol = ''http'') \<and> send_fails (buildMessage p) = None)"
    unfolding queue_try_error queue_loop_empty_iff isEmptyMessageBody_as_specified ..
  show "fst (topic_sendMessage_try ''sdk'' send_fails t now items) =
      Some (NodeOperationError ''Message Body cannot be empty'') \<longleftrightarrow>
    (\<exists>p \<in> set items. empty_as_specified (messageBody p)) \<and>
    (\<forall>p \<in> set (takeWhile (\<lambda>p. \<not> empty_as_specified (messageBody p)) items).
       send_fails (buildMessage p) = None)"
    unfolding topic_try_error topic_loop_empty_iff isEmptyMessageBody_as_specified ..
  show "fst (queue_sendMessage protocol send_fails q now items) =
     map_option operation_failed (fst (queue_sendMessage_try protocol send_fails q now items))"
    by (simp add: queue_sendMessage_def execute_guard_error)
  show "fst (topic_sendMessage protocol send_fails t now items) =
     map_option operation_failed (fst (topic_sendMessage_try protocol send_fails t now items))"
    by (simp add: topic_sendMessage_def execute_guard_error)
  show "operation_failed (NodeOperationError ''Message Body cannot be empty'') =
     NodeOperationError ''Azure Service Bus operation failed: Message Body cannot be empty''"
    by (simp add: operation_failed_def)
  show "\<not> empty_as_specified (JNum 0)" "\<not> empty_as_specified (JBool False)"
    "\<not> empty_as_specified (JObj kvs)"
    by (simp_all add: empty_as_specified_def)
  show "msg_body (buildMessage p0) = messageBody p0" by (rule buildMessage_body)
next
  assume "protocol \<noteq> ''sdk''"
  then show "fst (topic_sendMessage_try protocol send_fails t now items) =
        Some (NodeOperationError ''Topic operations are only supported with Azure SDK protocol'')"
    by (simp add: topic_try_guard)
next
  assume a: "(protocol = ''sdk'' \<or> protocol = ''http'') \<and>
    (\<forall>p \<in> set items. \<not> empty_as_specified (messageBody p) \<and> send_fails (buildMessage p) = None)"
  then have pr: "protocol = ''sdk'' \<or> protocol = ''http''"
    and ok: "\<forall>p \<in> set items. \<not> isEmptyMessageBody (messageBody p) \<and> send_fails (buildMessage p) = None"
    by (simp_all add: isEmptyMessageBody_as_specified)
  from pr ok have l: "fst (send_loop (queue_send_item protocol send_fails q now) items
        \<lparr>calls = (if protocol = ''sdk'' then [CreateSender q] else []), returnData = []\<rparr>) = None \<and>
      filter is_send (calls (snd (send_loop (queue_send_item protocol send_fails q now) items
        \<lparr>calls = (if protocol = ''sdk'' then [CreateSender q] else []), returnData = []\<rparr>))) =
      map (\<lambda>p. queue_send_call protocol q (buildMessage p)) items"
    using queue_loop_sends_all [of protocol items send_fails q now
      "\<lparr>calls = (if protocol = ''sdk'' then [CreateSender q] else []), returnData = []\<rparr>"]
    by simp
  from l show "fst (queue_sendMessage protocol send_fails q now items) = None"
    by (simp add: queue_sendMessage_def execute_guard_error queue_try_error)
  from l show "filter is_send (calls (snd (queue_sendMessage protocol send_fails q now items))) =
        map (\<lambda>p. queue_send_call protocol q (buildMessage p)) items"
    by (simp add: queue_sendMessage_def execute_guard_sends queue_try_sends)
next
  assume a: "\<forall>p \<in> set items. \<not> empty_as_specified (messageBody p) \<and> send_fails (buildMessage p) = None"
  then have ok: "\<forall>p \<in> set items. \<not> isEmptyMessageBody (messageBody p) \<and> send_fails (buildMessage p) = None"
    by (simp add: isEmptyMessageBody_as_specified)
  from ok have l: "fst (send_loop (topic_send_item send_fails t now) items
        \<lparr>calls = [CreateSender t], returnData = []\<rparr>) = None \<and>
      filter is_send (calls (snd (send_loop (topic_send_item send_fails t now) items
        \<lparr>calls = [CreateSender t], returnData = []\<rparr>))) =
      map (\<lambda>p. SendMessages t (buildMessage p)) items"
    using topic_loop_sends_all [of items send_fails t now "\<lparr>calls = [CreateSender t], returnData = []\<rparr>"]
    by simp
  from l show "fst (topic_sendMessage ''sdk'' send_fails t now items) = None"
    by (simp add: topic_sendMessage_def execute_guard_error topic_try_error)
  from l show "filter is_send (calls (snd (topic_sendMessage ''sdk'' send_fails t now items))) =
        map (\<lambda>p. SendMessages t (buildMessage p)) items"
    by (simp add: topic_sendMessage_def execute_guard_sends topic_try_sends)
qed

theorem sendMessage_empty_body_operation_witness:
  "fst (queue_sendMessage ''sdk'' (\<lambda>m. None) ''orders'' ''2026-02-05T12:00:00.000Z''
         [item_with_body (JNum 0), item_with_body (JBool False), item_with_body (JObj [])]) = None \<and>
   filter is_send (calls (snd (queue_sendMessage ''sdk'' (\<lambda>m. None) ''orders''
         ''2026-02-05T12:00:00.000Z''
         [item_with_body (JNum 0), item_with_body (JBool False), item_with_body (JObj [])]))) =
     [SendMessages ''orders'' (message_with_body (JNum 0)),
      SendMessages ''orders'' (message_with_body (JBool False)),
      SendMessages ''orders'' (message_with_body (JObj []))] \<and>
   fst (queue_sendMessage ''sdk'' (\<lambda>m. None) ''orders'' ''2026-02-05T12:00:00.000Z''
         [item_with_body (JNum 0), item_with_body (JStr ''  ''), item_with_body (JBool False)]) =
     Some (NodeOperationError ''Azure Service Bus operation failed: Message Body cannot be empty'') \<and>
   fst (topic_sendMessage ''sdk'' (\<lambda>m. None) ''events'' ''2026-02-05T12:00:00.000Z''
         [item_with_body (JNum 0), item_with_body (JBool False), item_with_body (JObj [])]) = None \<and>
   filter is_send (calls (snd (topic_sendMessage ''sdk'' (\<lambda>m. None) ''events''
         ''2026-02-05T12:00:00.000Z''
         [item_with_body (JNum 0), item_with_body (JBool False), item_with_body (JObj [])]))) =
     [SendMessages ''events'' (message_with_body (JNum 0)),
      SendMessages ''events'' (message_with_body (JBool False)),
      SendMessages ''events'' (message_with_body (JObj []))] \<and>
   fst (topic_sendMessage ''sdk'' (\<lambda>m. None) ''events'' ''2026-02-05T12:00:00.000Z''
         [item_with_body (JNum 0), item_with_body (JStr ''  ''), item_with_body (JBool False)]) =
     Some (NodeOperationError ''Azure Service Bus operation failed: Message Body cannot be empty'')"
proof -
  have b: "buildMessage (item_with_body v) = message_with_body v" for v
    by (simp add: buildMessage_def item_with_body_def message_with_body_def)
  have m: "messageBody (item_with_body v) = v" for v
    by (simp add: item_with_body_def)
  have e: "empty_as_specified (JStr ''  '')"
    by (simp add: empty_as_specified_def js_trim_def isWhiteSpace_def)
  have n: "\<not> empty_as_specified (JNum 0)" "\<not> empty_as_specified (JBool False)"
    "\<not> empty_as_specified (JObj [])"
    by (simp_all add: empty_as_specified_def)
  let ?sent = "[item_with_body (JNum 0), item_with_body (JBool False), item_with_body (JObj [])]"
  let ?blank = "[item_with_body (JNum 0), item_with_body (JStr ''  ''), item_with_body (JBool False)]"
  note sent = sendMessage_empty_body_operation
      [of "''sdk''" "\<lambda>m. None" "''orders''" "''2026-02-05T12:00:00.000Z''" ?sent "''events''"]
  note blank = sendMessage_empty_body_operation
      [of "''sdk''" "\<lambda>m. None" "''orders''" "''2026-02-05T12:00:00.000Z''" ?blank "''events''"]
  have h1: "\<forall>p \<in> set ?sent. \<not> empty_as_specified (messageBody p) \<and>
              (\<lambda>m. None) (buildMessage p) = None"
    by (simp add: m n)
  have h2: "(\<exists>p \<in> set ?blank. empty_as_specified (messageBody p)) \<and>
            (\<forall>p \<in> set (takeWhile (\<lambda>p. \<not> empty_as_specified (messageBody p)) ?blank).
               (''sdk'' = ''sdk'' \<or> ''sdk'' = ''http'') \<and> (\<lambda>m. None) (buildMessage p) = None)"
    by (simp add: m n e)
  have h3: "(\<exists>p \<in> set ?blank. empty_as_specified (messageBody p)) \<and>
            (\<forall>p \<in> set (takeWhile (\<lambda>p. \<not> empty_as_specified (messageBody p)) ?blank).
               (\<lambda>m. None) (buildMessage p) = None)"
    by (simp add: m n e)
  from sent h1
  have q1: "fst (queue_sendMessage ''sdk'' (\<lambda>m. None) ''orders'' ''2026-02-05T12:00:00.000Z'' ?sent) = None"
    and q2: "filter is_send (calls (snd (queue_sendMessage ''sdk'' (\<lambda>m. None) ''orders''
               ''2026-02-05T12:00:00.000Z'' ?sent))) =
             map (\<lambda>p. queue_send_call ''sdk'' ''orders'' (buildMessage p)) ?sent"
    and t1: "fst (topic_sendMessage ''sdk'' (\<lambda>m. None) ''events'' ''2026-02-05T12:00:00.000Z'' ?sent) = None"
    and t2: "filter is_send (calls (snd (topic_sendMessage ''sdk'' (\<lambda>m. None) ''events''
               ''2026-02-05T12:00:00.000Z'' ?sent))) =
             map (\<lambda>p. SendMessages ''events'' (buildMessage p)) ?sent"
    by blast+
  from blank h2
  have q3: "fst (queue_sendMessage_try ''sdk'' (\<lambda>m. None) ''orders'' ''2026-02-05T12:00:00.000Z'' ?blank) =
             Some (NodeOperationError ''Message Body cannot be empty'')"
    by blast
  from blank h3
  have t3: "fst (topic_sendMessage_try ''sdk'' (\<lambda>m. None) ''events'' ''2026-02-05T12:00:00.000Z'' ?blank) =
             Some (NodeOperationError ''Message Body cannot be empty'')"
    by blast
  from blank
  have q4: "fst (queue_sendMessage ''sdk'' (\<lambda>m. None) ''orders'' ''2026-02-05T12:00:00.000Z'' ?blank) =
             map_option operation_failed
               (fst (queue_sendMessage_try ''sdk'' (\<lambda>m. None) ''orders''
                      ''2026-02-05T12:00:00.000Z'' ?blank))"
    and t4: "fst (topic_sendMessage ''sdk'' (\<lambda>m. None) ''events'' ''2026-02-05T12:00:00.000Z'' ?blank) =
             map_option operation_failed
               (fst (topic_sendMessage_try ''sdk'' (\<lambda>m. None) ''events''
                      ''2026-02-05T12:00:00.000Z'' ?blank))"
    and o: "operation_failed (NodeOperationError ''Message Body cannot be empty'') =
             NodeOperationError ''Azure Service Bus operation failed: Message Body cannot be empty''"
    by blast+
  show ?thesis
    unfolding q1 q2 t1 t2 q4 t4 q3 t3
    by (simp add: o b queue_send_call_def)
qed

section \<open>Properties of the trigger\<close>

lemma call_calls [simp]: "calls (call c st) = calls st @ [c]"
  by (simp add: call_def)

lemma call_trigger_fields [simp]:
  "receivers (call c st) = receivers st"
  "sessionReceiverManager (call c st) = sessionReceiverManager st"
  "sessionLoop (call c st) = sessionLoop st"
  by (simp_all add: call_def)

lemma registered_call [simp]: "registered (call c st) = registered st"
  by (simp add: registered_def)

lemma registered_update [simp]:
  "registered (st\<lparr>sessionReceiverManager := Some act\<rparr>) = act"
  by (simp add: registered_def)

subsection \<open>Closing the session receivers\<close>

lemma closeSessionReceivers_fields [simp]:
  "receivers (closeSessionReceivers br act st) = receivers st"
  "sessionReceiverManager (closeSessionReceivers br act st) = sessionReceiverManager st"
  "sessionLoop (closeSessionReceivers br act st) = sessionLoop st"
  by (induction br act st rule: closeSessionReceivers.induct; simp add: Let_def split: option.split)+

lemma closeSessionReceivers_closes:
  "filter is_close (calls (closeSessionReceivers br act st)) =
     filter is_close (calls st) @ close_calls act"
  by (induction br act st rule: closeSessionReceivers.induct)
     (simp_all add: close_calls_def Let_def split: option.split)

lemma closeSessionReceivers_accepts:
  "filter is_accept (calls (closeSessionReceivers br act st)) = filter is_accept (calls st)"
  by (induction br act st rule: closeSessionReceivers.induct)
     (simp_all add: Let_def split: option.split)

lemma closeSessionReceivers_completes:
  "filter is_complete (calls (closeSessionReceivers br act st)) = filter is_complete (calls st)"
  by (induction br act st rule: closeSessionReceivers.induct)
     (simp_all add: Let_def split: option.split)

subsection \<open>Accepting a session\<close>

lemma getOrCreate_cached:
  "sessionMode cfg = ''specific'' \<Longrightarrow> sessionReceiverManager st = Some act \<Longrightarrow>
   map_of act (specificSessionId cfg) = Some r \<Longrightarrow>
   getOrCreateSessionReceiver cfg reply st = (Inr r, st)"
  by (simp add: getOrCreateSessionReceiver_def)

lemma getOrCreate_registers:
  assumes "sessionMode cfg = ''specific''"
    and "getOrCreateSessionReceiver cfg reply st = (Inr r, st1)"
  shows "\<exists>act. sessionReceiverManager st1 = Some act \<and> map_of act (specificSessionId cfg) = Some r"
  using assms
  by (auto simp: getOrCreateSessionReceiver_def Let_def update_conv'
           split: option.splits accept_reply.splits)

lemma getOrCreate_twice:
  assumes "sessionMode cfg = ''specific''"
    and "getOrCreateSessionReceiver cfg reply st = (Inr r, st1)"
  shows "getOrCreateSessionReceiver cfg reply2 st1 = (Inr r, st1)"
  using getOrCreate_registers[OF assms] getOrCreate_cached[OF assms(1)] by blast

lemma getOrCreate_fields [simp]:
  "receivers (snd (getOrCreateSessionReceiver cfg reply st)) = receivers st"
  "sessionLoop (snd (getOrCreateSessionReceiver cfg reply st)) = sessionLoop st"
  by (simp_all add: getOrCreateSessionReceiver_def Let_def
        split: option.split accept_reply.split)

lemma getOrCreate_completes:
  "filter is_complete (calls (snd (getOrCreateSessionReceiver cfg reply st))) =
     filter is_complete (calls st)"
  by (simp add: getOrCreateSessionReceiver_def Let_def split: option.split accept_reply.split)

lemma getOrCreate_registry_ok:
  "registry_ok st \<Longrightarrow> registry_ok (snd (getOrCreateSessionReceiver cfg reply st))"
  by (auto simp: getOrCreateSessionReceiver_def registry_ok_def registered_def Let_def
        distinct_update split: option.split accept_reply.split)

text \<open>
  C3. In \<open>specific\<close> mode, when a call of \<open>getOrCreateSessionReceiver\<close> has returned a receiver,
  the next call returns the same receiver and leaves the state as it is, whatever the broker
  would answer: no call is added, so \<open>acceptSession\<close> is not called again. More generally, a
  receiver that the map holds for the session id is returned without any call.
\<close>

theorem acceptSpecific_twice_same_receiver:
  "sessionMode cfg = ''specific'' \<longrightarrow>
     (getOrCreateSessionReceiver cfg reply st = (Inr r, st1) \<longrightarrow>
        getOrCreateSessionReceiver cfg reply2 st1 = (Inr r, st1) \<and>
        calls (snd (getOrCreateSessionReceiver cfg reply2 st1)) = calls st1) \<and>
     (sessionReceiverManager st = Some act \<and> map_of act (specificSessionId cfg) = Some r \<longrightarrow>
        getOrCreateSessionReceiver cfg reply st = (Inr r, st))"
  using getOrCreate_twice [of cfg reply st r st1 reply2] getOrCreate_cached [of cfg st act r reply]
  by simp

theorem acceptSpecific_twice_same_receiver_witness:
  "sessionMode (queue_config ''specific'' True) = ''specific'' \<and>
   getOrCreateSessionReceiver (queue_config ''specific'' True) (Accepted receiver_1)
     (trigger_start (queue_config ''specific'' True) 0) =
     (Inr receiver_1,
      \<lparr>calls = [AcceptSession ''orders'' ''S1'' 60000], receivers = [],
        sessionReceiverManager = Some [(''S1'', receiver_1)], sessionLoop = Looping\<rparr>) \<and>
   getOrCreateSessionReceiver (queue_config ''specific'' True) (Accepted receiver_2)
     \<lparr>calls = [AcceptSession ''orders'' ''S1'' 60000], receivers = [],
       sessionReceiverManager = Some [(''S1'', receiver_1)], sessionLoop = Looping\<rparr> =
     (Inr receiver_1,
      \<lparr>calls = [AcceptSession ''orders'' ''S1'' 60000], receivers = [],
        sessionReceiverManager = Some [(''S1'', receiver_1)], sessionLoop = Looping\<rparr>)"
proof -
  have m: "sessionMode (queue_config ''specific'' True) = ''specific''"
    by (simp add: queue_config_def)
  have a: "getOrCreateSessionReceiver (queue_config ''specific'' True) (Accepted receiver_1)
     (trigger_start (queue_config ''specific'' True) 0) =
     (Inr receiver_1,
      \<lparr>calls = [AcceptSession ''orders'' ''S1'' 60000], receivers = [],
        sessionReceiverManager = Some [(''S1'', receiver_1)], sessionLoop = Looping\<rparr>)"
    by (simp add: getOrCreateSessionReceiver_def trigger_start_def queue_config_def
          entityName_def call_def Let_def)
  show ?thesis
    using acceptSpecific_twice_same_receiver
            [of "queue_config ''specific'' True" "Accepted receiver_1"
                "trigger_start (queue_config ''specific'' True) 0" receiver_1
                "\<lparr>calls = [AcceptSession ''orders'' ''S1'' 60000], receivers = [],
                  sessionReceiverManager = Some [(''S1'', receiver_1)], sessionLoop = Looping\<rparr>"
                "Accepted receiver_2"]
          m a
    by simp
qed

subsection \<open>The error handler\<close>

lemma processError_session:
  assumes "sessionMode cfg \<noteq> ''none''" "sessionReceiverManager st = Some act"
  shows "processError br cfg err st =
           (None, (closeSessionReceivers br act (call (LogError err) st))
                    \<lparr>sessionReceiverManager := Some []\<rparr>)"
  using assms by (simp add: processError_def Let_def)

lemma processError_plain:
  "sessionMode cfg = ''none'' \<or> sessionReceiverManager st = None \<Longrightarrow>
   processError br cfg err st = (None, call (LogError err) st)"
  by (auto simp: processError_def Let_def split: option.split)

lemma processError_never_throws: "fst (processError br cfg err st) = None"
  by (simp add: processError_def Let_def split: option.split)

lemma processError_fields [simp]:
  "receivers (snd (processError br cfg err st)) = receivers st"
  "sessionLoop (snd (processError br cfg err st)) = sessionLoop st"
  by (simp_all add: processError_def Let_def split: option.split)

lemma processError_accepts:
  "filter is_accept (calls (snd (processError br cfg err st))) = filter is_accept (calls st)"
  by (simp add: processError_def Let_def closeSessionReceivers_accepts split: option.split)

lemma processError_completes:
  "filter is_complete (calls (snd (processError br cfg err st))) = filter is_complete (calls st)"
  by (simp add: processError_def Let_def closeSessionReceivers_completes split: option.split)

lemma processError_registry_ok:
  "registry_ok st \<Longrightarrow> registry_ok (snd (processError br cfg err st))"
  by (auto simp: processError_def Let_def registry_ok_def registered_def split: option.splits)

lemma sessionProcessError_session:
  assumes "sessionMode cfg \<noteq> ''none''" "sessionReceiverManager st = Some act"
  shows "sessionProcessError br cfg r err st =
           (None, (closeSessionReceivers br act (call (LogError err) st))
                    \<lparr>sessionReceiverManager := Some []\<rparr>)"
  using assms by (simp add: sessionProcessError_def processError_session)

lemma sessionProcessError_fields [simp]:
  "receivers (snd (sessionProcessError br cfg r err st)) = receivers st"
  "sessionLoop (snd (sessionProcessError br cfg r err st)) = sessionLoop st"
  by (simp_all add: sessionProcessError_def processError_def Let_def split: option.split)

lemma sessionProcessError_accepts:
  "filter is_accept (calls (snd (sessionProcessError br cfg r err st))) = filter is_accept (calls st)"
  by (simp add: sessionProcessError_def processError_def Let_def closeSessionReceivers_accepts
        split: option.split)

lemma sessionProcessError_completes:
  "filter is_complete (calls (snd (sessionProcessError br cfg r err st))) =
     filter is_complete (calls st)"
  by (simp add: sessionProcessError_def processError_def Let_def closeSessionReceivers_completes
        split: option.split)

lemma deleteReceiver_subset: "set (deleteReceiver r act) \<subseteq> set act"
  by (induction act) (auto split: if_splits)

lemma deleteReceiver_keys: "set (map fst (deleteReceiver r act)) \<subseteq> set (map fst act)"
  using deleteReceiver_subset [of r act] by auto

lemma deleteReceiver_distinct:
  "distinct (map fst act) \<Longrightarrow> distinct (map fst (deleteReceiver r act))"
proof (induction act)
  case Nil
  then show ?case by simp
next
  case (Cons a act)
  obtain sid r' where a: "a = (sid, r')" by (cases a)
  from Cons deleteReceiver_keys [of r act] show ?case
    unfolding a by auto
qed

lemma sessionProcessError_registry_ok:
  "registry_ok st \<Longrightarrow> registry_ok (snd (sessionProcessError br cfg r err st))"
  by (auto simp: sessionProcessError_def processError_def Let_def registry_ok_def registered_def
        split: option.splits intro: deleteReceiver_distinct)

text \<open>
  C4. With sessions, \<open>processError\<close> closes every receiver the map holds, in the order of the
  map, and leaves the map empty; it makes no acceptance call; and it returns without an
  error whatever closing a receiver answers, the errors of closing being written to the
  console. The handler of a session subscription, which runs \<open>processError\<close> first, ends in
  the same state. Without sessions, \<open>processError\<close> writes the error to the console and does
  nothing else: no receiver is closed, created or removed.
\<close>

theorem processError_closes_and_evicts_all:
  "(sessionMode cfg \<noteq> ''none'' \<and> sessionReceiverManager st = Some act \<longrightarrow>
      fst (processError br cfg err st) = None \<and>
      sessionReceiverManager (snd (processError br cfg err st)) = Some [] \<and>
      filter is_close (calls (snd (processError br cfg err st))) =
        filter is_close (calls st) @ map (\<lambda>(sid, r). CloseReceiver (handle r)) act \<and>
      filter is_accept (calls (snd (processError br cfg err st))) = filter is_accept (calls st) \<and>
      sessionProcessError br cfg sr err st = processError br cfg err st) \<and>
   (sessionMode cfg = ''none'' \<longrightarrow>
      processError br cfg err st = (None, call (LogError err) st) \<and>
      receivers (snd (processError br cfg err st)) = receivers st \<and>
      sessionReceiverManager (snd (processError br cfg err st)) = sessionReceiverManager st \<and>
      calls (snd (processError br cfg err st)) = calls st @ [LogError err])"
proof (intro conjI impI)
  assume s: "sessionMode cfg \<noteq> ''none'' \<and> sessionReceiverManager st = Some act"
  then have pe: "processError br cfg err st =
      (None, (closeSessionReceivers br act (call (LogError err) st))\<lparr>sessionReceiverManager := Some []\<rparr>)"
    by (simp add: processError_session)
  show "fst (processError br cfg err st) = None" by (rule processError_never_throws)
  show "sessionReceiverManager (snd (processError br cfg err st)) = Some []"
    by (simp add: pe)
  show "filter is_close (calls (snd (processError br cfg err st))) =
        filter is_close (calls st) @ map (\<lambda>(sid, r). CloseReceiver (handle r)) act"
    by (simp add: pe closeSessionReceivers_closes close_calls_def)
  show "filter is_accept (calls (snd (processError br cfg err st))) = filter is_accept (calls st)"
    by (rule processError_accepts)
  show "sessionProcessError br cfg sr err st = processError br cfg err st"
    using s by (simp add: sessionProcessError_session pe)
next
  assume n: "sessionMode cfg = ''none''"
  then show pe: "processError br cfg err st = (None, call (LogError err) st)"
    by (simp add: processError_plain)
  show "receivers (snd (processError br cfg err st)) = receivers st" by simp
  show "sessionReceiverManager (snd (processError br cfg err st)) = sessionReceiverManager st"
    by (simp add: pe)
  show "calls (snd (processError br cfg err st)) = calls st @ [LogError err]"
    by (simp add: pe)
qed

theorem processError_closes_and_evicts_all_witness:
  "calls (snd (processError
      \<lparr>close_fails = (\<lambda>h. if h = 1 then Some (SdkError ''already closed'') else None),
        client_close_fails = None, getSessionState = (\<lambda>h. Inr JNull)\<rparr>
      (queue_config ''any'' True) (SdkError ''session lock lost'')
      \<lparr>calls = [], receivers = [],
        sessionReceiverManager = Some [(''S1'', receiver_1), (''S2'', receiver_2)],
        sessionLoop = Looping\<rparr>)) =
     [LogError (SdkError ''session lock lost''), CloseReceiver 1,
      LogError (SdkError ''already closed''), CloseReceiver 2] \<and>
   sessionReceiverManager (snd (processError
      \<lparr>close_fails = (\<lambda>h. if h = 1 then Some (SdkError ''already closed'') else None),
        client_close_fails = None, getSessionState = (\<lambda>h. Inr JNull)\<rparr>
      (queue_config ''any'' True) (SdkError ''session lock lost'')
      \<lparr>calls = [], receivers = [],
        sessionReceiverManager = Some [(''S1'', receiver_1), (''S2'', receiver_2)],
        sessionLoop = Looping\<rparr>)) = Some [] \<and>
   processError quiet_broker (queue_config ''none'' True) (SdkError ''link detached'')
     (trigger_start (queue_config ''none'' True) 0) =
     (None, call (LogError (SdkError ''link detached'')) (trigger_start (queue_config ''none'' True) 0))"
  using processError_closes_and_evicts_all
          [of "queue_config ''any'' True"
              "\<lparr>calls = [], receivers = [],
                sessionReceiverManager = Some [(''S1'', receiver_1), (''S2'', receiver_2)],
                sessionLoop = Looping\<rparr>"
              "[(''S1'', receiver_1), (''S2'', receiver_2)]"
              "\<lparr>close_fails = (\<lambda>h. if h = 1 then Some (SdkError ''already closed'') else None),
                client_close_fails = None, getSessionState = (\<lambda>h. Inr JNull)\<rparr>"
              "SdkError ''session lock lost''" receiver_1]
        processError_closes_and_evicts_all
          [of "queue_config ''none'' True" "trigger_start (queue_config ''none'' True) 0" "[]"
              quiet_broker "SdkError ''link detached''" receiver_1]
  by (simp add: queue_config_def processError_def Let_def call_def receiver_1_def receiver_2_def)

subsection \<open>Messages\<close>

lemma processMessage_fields [simp]:
  "receivers (snd (processMessage rt br now cfg m rcv st)) = receivers st"
  "sessionReceiverManager (snd (processMessage rt br now cfg m rcv st)) = sessionReceiverManager st"
  "sessionLoop (snd (processMessage rt br now cfg m rcv st)) = sessionLoop st"
  by (simp_all add: processMessage_def Let_def split: sum.split receiver.split)

lemma processMessage_completes:
  "filter is_complete (calls (snd (processMessage rt br now cfg m rcv st))) =
     filter is_complete (calls st)"
  by (simp add: processMessage_def Let_def split: sum.split receiver.split)

lemma processMessage_accepts:
  "filter is_accept (calls (snd (processMessage rt br now cfg m rcv st))) =
     filter is_accept (calls st)"
  by (simp add: processMessage_def Let_def split: sum.split receiver.split)

lemma processMessage_closes:
  "filter is_close (calls (snd (processMessage rt br now cfg m rcv st))) =
     filter is_close (calls st)"
  by (simp add: processMessage_def Let_def split: sum.split receiver.split)

lemma processMessage_state_read_fails:
  assumes "sessionMode cfg \<noteq> ''none''" "normalizeBody rt (rm_body m) = Inr body"
    "getSessionState br (handle r) = Inl e"
  shows "fst (processMessage rt br now cfg m (SessionReceiver r) st) = None"
    and "calls (snd (processMessage rt br now cfg m (SessionReceiver r) st)) =
           calls st @ [GetSessionState (handle r), LogError e,
             Emit (JObj (nodeExecutionData cfg now m body @ [(''sessionInfo'', sessionInfo r JNull)]))]"
  using assms by (simp_all add: processMessage_def Let_def)

subsection \<open>Shutdown\<close>

lemma closePlainReceivers_fields [simp]:
  "receivers (snd (closePlainReceivers br hs st)) = receivers st"
  "sessionReceiverManager (snd (closePlainReceivers br hs st)) = sessionReceiverManager st"
  "sessionLoop (snd (closePlainReceivers br hs st)) = sessionLoop st"
  by (induction br hs st rule: closePlainReceivers.induct; simp add: Let_def split: option.split)+

lemma closePlainReceivers_ok:
  "\<forall>h \<in> set hs. close_fails br h = None \<Longrightarrow>
   fst (closePlainReceivers br hs st) = None \<and>
   calls (snd (closePlainReceivers br hs st)) = calls st @ map CloseReceiver hs"
  by (induction br hs st rule: closePlainReceivers.induct) (simp_all add: Let_def)

lemma closePlainReceivers_accepts:
  "filter is_accept (calls (snd (closePlainReceivers br hs st))) = filter is_accept (calls st)"
  by (induction br hs st rule: closePlainReceivers.induct)
     (simp_all add: Let_def split: option.split)

lemma closePlainReceivers_completes:
  "filter is_complete (calls (snd (closePlainReceivers br hs st))) = filter is_complete (calls st)"
  by (induction br hs st rule: closePlainReceivers.induct)
     (simp_all add: Let_def split: option.split)

lemma closeFunction_never_throws: "fst (closeFunction br st) = None"
  by (simp add: closeFunction_def Let_def split: prod.split option.split)

lemma closeFunction_fields [simp]:
  "receivers (snd (closeFunction br st)) = receivers st"
  "sessionLoop (snd (closeFunction br st)) = sessionLoop st"
proof -
  obtain e st1 where c: "closePlainReceivers br (receivers st) st = (e, st1)"
    by (cases "closePlainReceivers br (receivers st) st")
  have f: "receivers st1 = receivers st" "sessionLoop st1 = sessionLoop st"
    using closePlainReceivers_fields [of br "receivers st" st] unfolding c by simp_all
  show "receivers (snd (closeFunction br st)) = receivers st"
    by (simp add: closeFunction_def c f Let_def split: option.split)
  show "sessionLoop (snd (closeFunction br st)) = sessionLoop st"
    by (simp add: closeFunction_def c f Let_def split: option.split)
qed

lemma closeFunction_accepts:
  "filter is_accept (calls (snd (closeFunction br st))) = filter is_accept (calls st)"
proof -
  obtain e st1 where c: "closePlainReceivers br (receivers st) st = (e, st1)"
    by (cases "closePlainReceivers br (receivers st) st")
  have f: "filter is_accept (calls st1) = filter is_accept (calls st)"
    using closePlainReceivers_accepts [of br "receivers st" st] unfolding c by simp
  show ?thesis
    by (simp add: closeFunction_def c f Let_def closeSessionReceivers_accepts split: option.split)
qed

lemma closeFunction_completes:
  "filter is_complete (calls (snd (closeFunction br st))) = filter is_complete (calls st)"
proof -
  obtain e st1 where c: "closePlainReceivers br (receivers st) st = (e, st1)"
    by (cases "closePlainReceivers br (receivers st) st")
  have f: "filter is_complete (calls st1) = filter is_complete (calls st)"
    using closePlainReceivers_completes [of br "receivers st" st] unfolding c by simp
  show ?thesis
    by (simp add: closeFunction_def c f Let_def closeSessionReceivers_completes split: option.split)
qed

lemma closeFunction_registry_ok:
  "registry_ok st \<Longrightarrow> registry_ok (snd (closeFunction br st))"
proof -
  assume ok: "registry_ok st"
  obtain e st1 where c: "closePlainReceivers br (receivers st) st = (e, st1)"
    by (cases "closePlainReceivers br (receivers st) st")
  have f: "sessionReceiverManager st1 = sessionReceiverManager st"
    using closePlainReceivers_fields [of br "receivers st" st] unfolding c by simp
  from ok show ?thesis
    by (auto simp: closeFunction_def c f Let_def registry_ok_def registered_def
          split: option.splits)
qed

lemma closeFunction_closes:
  assumes "\<forall>h \<in> set (receivers st). close_fails br h = None"
  shows "filter is_close (calls (snd (closeFunction br st))) =
           filter is_close (calls st) @ map CloseReceiver (receivers st) @
           close_calls (registered st) @ [CloseClient]"
    and "registered (snd (closeFunction br st)) = []"
proof -
  obtain st1 where c: "closePlainReceivers br (receivers st) st = (None, st1)"
    and c1: "calls st1 = calls st @ map CloseReceiver (receivers st)"
    using closePlainReceivers_ok [OF assms, of st]
    by (cases "closePlainReceivers br (receivers st) st") auto
  have f: "sessionReceiverManager st1 = sessionReceiverManager st"
    using closePlainReceivers_fields [of br "receivers st" st] unfolding c by simp
  have cl: "filter is_close (map CloseReceiver hs) = map CloseReceiver hs" for hs
    by (induction hs) simp_all
  show "filter is_close (calls (snd (closeFunction br st))) =
           filter is_close (calls st) @ map CloseReceiver (receivers st) @
           close_calls (registered st) @ [CloseClient]"
    by (simp add: closeFunction_def c f c1 cl Let_def registered_def closeSessionReceivers_closes
          close_calls_def split: option.split)
  show "registered (snd (closeFunction br st)) = []"
    by (simp add: closeFunction_def c f Let_def registered_def split: option.split)
qed

text \<open>
  C6, as the claim states it, fails: \<open>closeFunction\<close> keeps no record of what it has closed
  except that it empties the map of session receivers. Called twice on a trigger without
  sessions, it calls \<open>close\<close> twice on the plain receiver and twice on the client.
\<close>

theorem closeFunction_twice_counterexample:
  "calls (snd (closeFunction quiet_broker
           (snd (closeFunction quiet_broker (trigger_start (queue_config ''none'' True) 0))))) =
     [CreateReceiver ''orders'' 0, Subscribe 0 True 1,
      CloseReceiver 0, CloseClient, CloseReceiver 0, CloseClient]"
  by (simp add: closeFunction_def trigger_start_def queue_config_def quiet_broker_def
      entityName_def call_def Let_def)

text \<open>
  C6, amended. \<open>closeFunction\<close> never raises an error, on the first call or on the second.
  When closing no plain receiver fails, a call closes the plain receivers, then every session
  receiver the map holds (the errors of closing them are written to the console), then the
  client, and leaves the map empty. The second of two calls therefore closes no session
  receiver that the first has closed; it does call \<open>close\<close> again on every plain receiver and
  on the client.
\<close>

theorem closeFunction_twice:
  "fst (closeFunction br st) = None \<and>
   fst (closeFunction br' (snd (closeFunction br st))) = None \<and>
   ((\<forall>h \<in> set (receivers st). close_fails br h = None) \<longrightarrow>
      filter is_close (calls (snd (closeFunction br st))) =
        filter is_close (calls st) @ map CloseReceiver (receivers st) @
        map (\<lambda>(sid, r). CloseReceiver (handle r)) (registered st) @ [CloseClient] \<and>
      registered (snd (closeFunction br st)) = []) \<and>
   ((\<forall>h \<in> set (receivers st). close_fails br h = None \<and> close_fails br' h = None) \<longrightarrow>
      filter is_close (calls (snd (closeFunction br' (snd (closeFunction br st))))) =
        filter is_close (calls (snd (closeFunction br st))) @
        map CloseReceiver (receivers st) @ [CloseClient])"
proof (intro conjI impI)
  show "fst (closeFunction br st) = None" by (rule closeFunction_never_throws)
  show "fst (closeFunction br' (snd (closeFunction br st))) = None"
    by (rule closeFunction_never_throws)
next
  assume a: "\<forall>h \<in> set (receivers st). close_fails br h = None"
  from closeFunction_closes(1) [OF a]
  show "filter is_close (calls (snd (closeFunction br st))) =
        filter is_close (calls st) @ map CloseReceiver (receivers st) @
        map (\<lambda>(sid, r). CloseReceiver (handle r)) (registered st) @ [CloseClient]"
    by (simp add: close_calls_def)
  from closeFunction_closes(2) [OF a] show "registered (snd (closeFunction br st)) = []" .
next
  assume a: "\<forall>h \<in> set (receivers st). close_fails br h = None \<and> close_fails br' h = None"
  then have a1: "\<forall>h \<in> set (receivers st). close_fails br h = None" by simp
  from a have a2: "\<forall>h \<in> set (receivers (snd (closeFunction br st))). close_fails br' h = None"
    by simp
  from closeFunction_closes(1) [OF a2] closeFunction_closes(2) [OF a1]
  show "filter is_close (calls (snd (closeFunction br' (snd (closeFunction br st))))) =
        filter is_close (calls (snd (closeFunction br st))) @
        map CloseReceiver (receivers st) @ [CloseClient]"
    by (simp add: close_calls_def)
qed

theorem closeFunction_twice_witness:
  "close_fails quiet_broker 0 = None \<and>
   filter is_close (calls (snd (closeFunction quiet_broker
      \<lparr>calls = [], receivers = [0], sessionReceiverManager = Some [(''S1'', receiver_1)],
        sessionLoop = Stopped\<rparr>))) = [CloseReceiver 0, CloseReceiver 1, CloseClient] \<and>
   filter is_close (calls (snd (closeFunction quiet_broker (snd (closeFunction quiet_broker
      \<lparr>calls = [], receivers = [0], sessionReceiverManager = Some [(''S1'', receiver_1)],
        sessionLoop = Stopped\<rparr>))))) =
     [CloseReceiver 0, CloseReceiver 1, CloseClient, CloseReceiver 0, CloseClient]"
proof -
  have h: "close_fails quiet_broker 0 = None"
    by (simp add: quiet_broker_def)
  from closeFunction_twice
          [of quiet_broker
              "\<lparr>calls = [], receivers = [0], sessionReceiverManager = Some [(''S1'', receiver_1)],
                sessionLoop = Stopped\<rparr>" quiet_broker] h
  show ?thesis
    by (simp add: registered_def receiver_1_def)
qed

subsection \<open>The session loop\<close>

lemma registry_ok_call [simp]: "registry_ok (call c st) = registry_ok st"
  by (simp add: registry_ok_def)

lemma registry_ok_sessionLoop [simp]: "registry_ok (st\<lparr>sessionLoop := x\<rparr>) = registry_ok st"
  by (simp add: registry_ok_def registered_def)

lemma processMessage_registry_ok [simp]:
  "registry_ok (snd (processMessage rt br now cfg m rcv st)) = registry_ok st"
  by (simp add: registry_ok_def registered_def)

lemma sessionLoopTurn_receivers [simp]:
  "receivers (sessionLoopTurn cfg ans st) = receivers st"
proof -
  obtain res st1 where g: "getOrCreateSessionReceiver cfg (accept_reply ans) st = (res, st1)"
    by (cases "getOrCreateSessionReceiver cfg (accept_reply ans) st")
  have "receivers st1 = receivers st"
    using getOrCreate_fields(1) [of cfg "accept_reply ans" st] unfolding g by simp
  then show ?thesis
    by (simp add: sessionLoopTurn_def g Let_def split: sum.split option.split)
qed

lemma sessionLoopTurn_completes:
  "filter is_complete (calls (sessionLoopTurn cfg ans st)) = filter is_complete (calls st)"
proof -
  obtain res st1 where g: "getOrCreateSessionReceiver cfg (accept_reply ans) st = (res, st1)"
    by (cases "getOrCreateSessionReceiver cfg (accept_reply ans) st")
  have "filter is_complete (calls st1) = filter is_complete (calls st)"
    using getOrCreate_completes [of cfg "accept_reply ans" st] unfolding g by simp
  then show ?thesis
    by (simp add: sessionLoopTurn_def g Let_def split: sum.split option.split)
qed

lemma sessionLoopTurn_registry_ok:
  "registry_ok st \<Longrightarrow> registry_ok (sessionLoopTurn cfg ans st)"
proof -
  assume ok: "registry_ok st"
  obtain res st1 where g: "getOrCreateSessionReceiver cfg (accept_reply ans) st = (res, st1)"
    by (cases "getOrCreateSessionReceiver cfg (accept_reply ans) st")
  have "registry_ok st1"
    using getOrCreate_registry_ok [OF ok, of cfg "accept_reply ans"] unfolding g by simp
  then show ?thesis
    by (simp add: sessionLoopTurn_def g Let_def split: sum.split option.split)
qed

lemma sessionLoopTurn_keeps_looping:
  "sessionMode cfg \<noteq> ''specific'' \<Longrightarrow> sessionLoop (sessionLoopTurn cfg ans st) = sessionLoop st"
proof -
  assume m: "sessionMode cfg \<noteq> ''specific''"
  obtain res st1 where g: "getOrCreateSessionReceiver cfg (accept_reply ans) st = (res, st1)"
    by (cases "getOrCreateSessionReceiver cfg (accept_reply ans) st")
  have "sessionLoop st1 = sessionLoop st"
    using getOrCreate_fields(2) [of cfg "accept_reply ans" st] unfolding g by simp
  with m show ?thesis
    by (simp add: sessionLoopTurn_def g Let_def split: sum.split option.split)
qed

text \<open>
  In \<open>any\<close> mode the loop never ends: however many answers it has used, it is still
  running, and every turn has asked for the next session and waited, one second after a
  subscription and five seconds after an error.
\<close>

lemma startSessionHandling_any_runs_on:
  "sessionMode cfg = ''any'' \<Longrightarrow>
   sessionLoop (startSessionHandling cfg anss st) = sessionLoop st"
  by (induction cfg anss st rule: startSessionHandling.induct)
     (simp_all add: sessionLoopTurn_keeps_looping)

lemma sessionLoopTurn_any:
  assumes "sessionMode cfg = ''any''" "sessionReceiverManager st = Some act"
  shows "calls (sessionLoopTurn cfg ans st) =
           calls st @ AcceptNextSession (entityName cfg) (sessionTimeout cfg * 1000) #
           (case accept_reply ans of
              Rejected e \<Rightarrow> [LogError e, LogError e, Delay 5000]
            | Accepted r \<Rightarrow>
                Subscribe (handle r) (autoComplete cfg) (maxConcurrentCalls cfg) #
                (case subscribe_throws ans of
                   Some e \<Rightarrow> [LogError e, Delay 5000]
                 | None \<Rightarrow> [Delay 1000]))"
  using assms
  by (simp add: sessionLoopTurn_def getOrCreateSessionReceiver_def Let_def
        split: accept_reply.split option.split)

text \<open>
  In \<open>specific\<close> mode a rejected acceptance is followed by a delay of five seconds, the loop
  goes on, and the map is as before, so the next turn asks for the same session again. The
  loop never asks for the next available session.
\<close>

lemma sessionLoopTurn_specific_rejected:
  assumes "sessionMode cfg = ''specific''" "sessionReceiverManager st = Some act"
    "map_of act (specificSessionId cfg) = None" "accept_reply ans = Rejected e"
  shows "calls (sessionLoopTurn cfg ans st) =
           calls st @ [AcceptSession (entityName cfg) (specificSessionId cfg) (sessionTimeout cfg * 1000),
                       LogError e, LogError e, Delay 5000]"
    and "sessionReceiverManager (sessionLoopTurn cfg ans st) = Some act"
    and "sessionLoop (sessionLoopTurn cfg ans st) = sessionLoop st"
  using assms
  by (simp_all add: sessionLoopTurn_def getOrCreateSessionReceiver_def Let_def)

lemma sessionLoopTurn_specific_accepted:
  assumes "sessionMode cfg = ''specific''" "sessionReceiverManager st = Some act"
    "map_of act (specificSessionId cfg) = None" "accept_reply ans = Accepted r"
    "subscribe_throws ans = None"
  shows "calls (sessionLoopTurn cfg ans st) =
           calls st @ [AcceptSession (entityName cfg) (specificSessionId cfg) (sessionTimeout cfg * 1000),
                       Subscribe (handle r) (autoComplete cfg) (maxConcurrentCalls cfg)]"
    and "sessionLoop (sessionLoopTurn cfg ans st) = Stopped"
  using assms
  by (simp_all add: sessionLoopTurn_def getOrCreateSessionReceiver_def Let_def)

lemma sessionLoopTurn_specific_accepts:
  assumes "sessionMode cfg = ''specific''"
  shows "set (filter is_accept (calls (sessionLoopTurn cfg ans st))) \<subseteq>
           set (filter is_accept (calls st)) \<union>
           {AcceptSession (entityName cfg) (specificSessionId cfg) (sessionTimeout cfg * 1000)}"
  using assms
  by (auto simp: sessionLoopTurn_def getOrCreateSessionReceiver_def Let_def
        split: accept_reply.splits option.splits if_splits)

lemma startSessionHandling_specific_accepts:
  assumes "sessionMode cfg = ''specific''"
  shows "set (filter is_accept (calls (startSessionHandling cfg anss st))) \<subseteq>
           set (filter is_accept (calls st)) \<union>
           {AcceptSession (entityName cfg) (specificSessionId cfg) (sessionTimeout cfg * 1000)}"
proof (induction anss arbitrary: st)
  case Nil
  show ?case by auto
next
  case (Cons ans rest)
  show ?case
  proof (cases "sessionLoop st = Looping")
    case True
    have "set (filter is_accept (calls (startSessionHandling cfg rest (sessionLoopTurn cfg ans st)))) \<subseteq>
          set (filter is_accept (calls (sessionLoopTurn cfg ans st))) \<union>
          {AcceptSession (entityName cfg) (specificSessionId cfg) (sessionTimeout cfg * 1000)}"
      by (rule Cons.IH)
    with sessionLoopTurn_specific_accepts [OF assms, of ans st] True show ?thesis
      by (simp del: set_filter) blast
  next
    case False
    then show ?thesis by auto
  qed
qed

subsection \<open>The trigger as a whole\<close>

lemma startSessionHandling_stopped:
  "sessionLoop st = Stopped \<Longrightarrow> startSessionHandling cfg anss st = st"
  by (cases anss) simp_all

lemma trigger_step_stopped:
  assumes "sessionLoop st = Stopped"
  shows "sessionLoop (trigger_step rt br now cfg s st) = Stopped"
    and "filter is_accept (calls (trigger_step rt br now cfg s st)) = filter is_accept (calls st)"
  using assms
  by (simp_all add: trigger_step_def startSessionHandling_stopped processMessage_accepts
        processError_accepts sessionProcessError_accepts closeFunction_accepts
        split: stimulus.split receiver.split)

text \<open>
  Once \<open>startSessionHandling\<close> has left its loop, nothing the trigger does afterwards accepts a
  session: the handlers and \<open>closeFunction\<close> make no acceptance call, and the loop takes no
  further turn.
\<close>

lemma trigger_run_stopped_no_accept:
  "sessionLoop st = Stopped \<Longrightarrow>
   filter is_accept (calls (trigger_run rt br now cfg ss st)) = filter is_accept (calls st) \<and>
   sessionLoop (trigger_run rt br now cfg ss st) = Stopped"
proof (induction ss arbitrary: st)
  case Nil
  then show ?case by simp
next
  case (Cons s ss)
  from trigger_step_stopped [OF Cons.prems] Cons.IH [of "trigger_step rt br now cfg s st"]
  show ?case by simp
qed

lemma trigger_step_completes:
  "filter is_complete (calls (trigger_step rt br now cfg s st)) = filter is_complete (calls st)"
  by (cases "sessionLoop st = Looping")
     (simp_all add: trigger_step_def processMessage_completes sessionLoopTurn_completes
        processError_completes sessionProcessError_completes closeFunction_completes
        split: stimulus.split receiver.split)

text \<open>
  Whatever reaches the trigger, under either completion policy, it never calls
  \<open>completeMessage\<close>.
\<close>

lemma trigger_run_never_completes:
  "filter is_complete (calls (trigger_run rt br now cfg ss st)) = filter is_complete (calls st)"
  by (induction ss arbitrary: st) (simp_all add: trigger_step_completes)

lemma trigger_step_registry_ok:
  "registry_ok st \<Longrightarrow> registry_ok (trigger_step rt br now cfg s st)"
  by (cases "sessionLoop st = Looping")
     (simp_all add: trigger_step_def sessionLoopTurn_registry_ok processError_registry_ok
        sessionProcessError_registry_ok closeFunction_registry_ok
        split: stimulus.split receiver.split)

lemma trigger_run_registry_ok:
  "registry_ok st \<Longrightarrow> registry_ok (trigger_run rt br now cfg ss st)"
  by (induction ss arbitrary: st) (simp_all add: trigger_step_registry_ok)

lemma trigger_start_registry_ok: "registry_ok (trigger_start cfg h)"
  by (simp add: trigger_start_def registry_ok_def registered_def)

lemma distinct_keys_filter:
  "distinct (map fst act) \<Longrightarrow> length (filter (\<lambda>(k, r). k = sid \<and> P r) act) \<le> 1"
proof (induction act)
  case Nil
  then show ?case by simp
next
  case (Cons a act)
  obtain k r where a: "a = (k, r)" by (cases a)
  show ?case
  proof (cases "k = sid")
    case True
    with Cons.prems a have "sid \<notin> fst ` set act" by auto
    then have "filter (\<lambda>(k, r). k = sid \<and> P r) act = []"
      by (force simp: filter_empty_conv)
    with a show ?thesis by simp
  next
    case False
    with Cons a show ?thesis by simp
  qed
qed

lemma registry_ok_live: "registry_ok st \<Longrightarrow> length (live_receivers sid st) \<le> 1"
  using distinct_keys_filter [of "registered st" sid "\<lambda>r. CloseReceiver (handle r) \<notin> set (calls st)"]
  by (simp add: registry_ok_def live_receivers_def registered_def split: option.splits)

text \<open>
  C8. The map of session receivers holds one entry per session id, and every operation keeps
  it so: accepting a given session or the next one (an entry for the same id is replaced),
  the error handlers, shutdown, and any step of the trigger. So at no point of any run are
  there two live receivers, registered and not closed, for one session id.
\<close>

theorem registry_one_live_receiver_per_session:
  "(registry_ok st \<longrightarrow>
      registry_ok (snd (getOrCreateSessionReceiver cfg reply st)) \<and>
      registry_ok (snd (processError br cfg err st)) \<and>
      registry_ok (snd (sessionProcessError br cfg r err st)) \<and>
      registry_ok (snd (closeFunction br st)) \<and>
      registry_ok (trigger_step rt br now cfg s st) \<and>
      length (live_receivers sid st) \<le> 1) \<and>
   registry_ok (trigger_start cfg h) \<and>
   length (live_receivers sid (trigger_run rt br now cfg ss (trigger_start cfg h))) \<le> 1"
  using getOrCreate_registry_ok [of st cfg reply] processError_registry_ok [of st br cfg err]
    sessionProcessError_registry_ok [of st br cfg r err] closeFunction_registry_ok [of st br]
    trigger_step_registry_ok [of st rt br now cfg s] registry_ok_live [of st sid]
    trigger_start_registry_ok [of cfg h]
    registry_ok_live [OF trigger_run_registry_ok [OF trigger_start_registry_ok], of sid rt br now cfg ss cfg h]
  by simp

theorem registry_one_live_receiver_per_session_witness:
  "registry_ok \<lparr>calls = [], receivers = [], sessionReceiverManager = Some [(''S1'', receiver_1)],
                 sessionLoop = Looping\<rparr> \<and>
   snd (getOrCreateSessionReceiver (queue_config ''any'' True) (Accepted receiver_2)
         \<lparr>calls = [], receivers = [], sessionReceiverManager = Some [(''S1'', receiver_1)],
           sessionLoop = Looping\<rparr>) =
     \<lparr>calls = [AcceptNextSession ''orders'' 60000], receivers = [],
       sessionReceiverManager = Some [(''S1'', receiver_2)], sessionLoop = Looping\<rparr> \<and>
   registry_ok (snd (getOrCreateSessionReceiver (queue_config ''any'' True) (Accepted receiver_2)
         \<lparr>calls = [], receivers = [], sessionReceiverManager = Some [(''S1'', receiver_1)],
           sessionLoop = Looping\<rparr>))"
proof -
  have ok: "registry_ok \<lparr>calls = [], receivers = [], sessionReceiverManager = Some [(''S1'', receiver_1)],
                 sessionLoop = Looping\<rparr>"
    by (simp add: registry_ok_def registered_def)
  have ev: "snd (getOrCreateSessionReceiver (queue_config ''any'' True) (Accepted receiver_2)
         \<lparr>calls = [], receivers = [], sessionReceiverManager = Some [(''S1'', receiver_1)],
           sessionLoop = Looping\<rparr>) =
     \<lparr>calls = [AcceptNextSession ''orders'' 60000], receivers = [],
       sessionReceiverManager = Some [(''S1'', receiver_2)], sessionLoop = Looping\<rparr>"
    by (simp add: getOrCreateSessionReceiver_def queue_config_def entityName_def call_def Let_def
          receiver_2_def)
  from registry_one_live_receiver_per_session
         [of "\<lparr>calls = [], receivers = [], sessionReceiverManager = Some [(''S1'', receiver_1)],
                sessionLoop = Looping\<rparr>" "queue_config ''any'' True" "Accepted receiver_2"]
       ok ev
  show ?thesis by simp
qed

text \<open>
  C5, at a failing input. The trigger is in \<open>specific\<close> mode for the session \<open>S1\<close>. The session
  is accepted and subscribed, so \<open>startSessionHandling\<close> leaves its loop. Then an error reaches
  the subscription: the receiver is closed and removed from the map. No acceptance follows,
  however long the broker would go on answering: the calls end with the close, the map stays
  empty and the loop stays stopped.
\<close>

theorem specific_session_not_reaccepted_after_error:
  "trigger_run node_runtime quiet_broker ''2026-02-05T12:00:00.000Z'' (queue_config ''specific'' True)
     [LoopTurn (accepts receiver_1),
      ErrorArrives (SessionReceiver receiver_1) (SdkError ''session lock lost''),
      LoopTurn (accepts receiver_2), LoopTurn (accepts receiver_2)]
     (trigger_start (queue_config ''specific'' True) 0) =
   \<lparr>calls = [AcceptSession ''orders'' ''S1'' 60000, Subscribe 1 True 1,
             LogError (SdkError ''session lock lost''), CloseReceiver 1],
     receivers = [], sessionReceiverManager = Some [], sessionLoop = Stopped\<rparr>"
  by (simp add: trigger_step_def trigger_start_def queue_config_def accepts_def receiver_1_def
      receiver_2_def quiet_broker_def sessionLoopTurn_def getOrCreateSessionReceiver_def
      sessionProcessError_def processError_def entityName_def call_def Let_def)

section \<open>Properties of receiving\<close>

lemma push_calls [simp]: "calls (push item st) = calls st @ [PushReturnData item]"
  by (simp add: push_def)

lemma push_returnData [simp]: "returnData (push item st) = returnData st @ [item]"
  by (simp add: push_def call_def)

lemma call_returnData [simp]: "returnData (call c st) = returnData st"
  by (simp add: call_def)

text \<open>
  In the action node, when no body fails to normalize and no completion fails, the loop makes
  for each message, in the order received, the push of its record and then, under
  \<open>peekLock\<close>, one \<open>completeMessage\<close> call; under \<open>receiveAndDelete\<close> it makes none.
\<close>

lemma receive_loop_calls:
  assumes "\<forall>m \<in> set messages.
             (\<exists>b. normalizeBody rt (rm_body m) = Inr b) \<and> complete_fails ans m = None"
  shows "fst (receive_loop rt ans p h iss sid state messages st) = None \<and>
         calls (snd (receive_loop rt ans p h iss sid state messages st)) =
           calls st @ concat (map (delivery_calls rt p h iss sid state) messages)"
  using assms
proof (induction messages arbitrary: st)
  case Nil
  then show ?case by simp
next
  case (Cons m messages)
  then obtain b where b: "normalizeBody rt (rm_body m) = Inr b"
    and c: "complete_fails ans m = None" by auto
  from Cons.prems have rest: "\<forall>m \<in> set messages.
             (\<exists>b. normalizeBody rt (rm_body m) = Inr b) \<and> complete_fails ans m = None" by simp
  show ?case
  proof (cases "receiveMode p = ''peekLock''")
    case True
    with Cons.IH [OF rest] b c show ?thesis
      by (simp add: delivery_calls_def Let_def)
  next
    case False
    with Cons.IH [OF rest] b c show ?thesis
      by (simp add: delivery_calls_def Let_def)
  qed
qed

lemma delivery_calls_completes:
  "normalizeBody rt (rm_body m) = Inr b \<Longrightarrow>
   filter is_complete (delivery_calls rt p h iss sid state m) =
     (if receiveMode p = ''peekLock'' then [CompleteMessage h (rm_messageId m)] else [])"
  by (simp add: delivery_calls_def)

text \<open>
  Whatever fails, the loop completes a message at most once: its completions are those of the
  messages it has got to, one each, in order.
\<close>

lemma receive_loop_completes_prefix:
  "\<exists>k \<le> length messages.
     filter is_complete (calls (snd (receive_loop rt ans p h iss sid state messages st))) =
       filter is_complete (calls st) @
       (if receiveMode p = ''peekLock''
        then map (\<lambda>m. CompleteMessage h (rm_messageId m)) (take k messages) else [])"
proof (induction messages arbitrary: st)
  case Nil
  then show ?case by simp
next
  case (Cons m messages)
  show ?case
  proof (cases "normalizeBody rt (rm_body m)")
    case (Inl e)
    then have "filter is_complete (calls (snd (receive_loop rt ans p h iss sid state (m # messages) st))) =
       filter is_complete (calls st) @
       (if receiveMode p = ''peekLock''
        then map (\<lambda>m. CompleteMessage h (rm_messageId m)) (take 0 (m # messages)) else [])"
      by simp
    then show ?thesis by blast
  next
    case (Inr b)
    show ?thesis
    proof (cases "receiveMode p = ''peekLock''")
      case True
      show ?thesis
      proof (cases "complete_fails ans m")
        case None
        from Cons.IH [of "call (CompleteMessage h (rm_messageId m)) (push (receive_result m b iss sid state) st)"]
        obtain k where k: "k \<le> length messages"
          "filter is_complete (calls (snd (receive_loop rt ans p h iss sid state messages
              (call (CompleteMessage h (rm_messageId m)) (push (receive_result m b iss sid state) st))))) =
           filter is_complete (calls (call (CompleteMessage h (rm_messageId m))
              (push (receive_result m b iss sid state) st))) @
           (if receiveMode p = ''peekLock''
            then map (\<lambda>m. CompleteMessage h (rm_messageId m)) (take k messages) else [])"
          by blast
        with Inr True None
        have "Suc k \<le> length (m # messages) \<and>
          filter is_complete (calls (snd (receive_loop rt ans p h iss sid state (m # messages) st))) =
          filter is_complete (calls st) @
          (if receiveMode p = ''peekLock''
           then map (\<lambda>m. CompleteMessage h (rm_messageId m)) (take (Suc k) (m # messages)) else [])"
          by (simp add: Let_def)
        then show ?thesis by blast
      next
        case (Some e)
        with Inr True
        have "Suc 0 \<le> length (m # messages) \<and>
          filter is_complete (calls (snd (receive_loop rt ans p h iss sid state (m # messages) st))) =
          filter is_complete (calls st) @
          (if receiveMode p = ''peekLock''
           then map (\<lambda>m. CompleteMessage h (rm_messageId m)) (take (Suc 0) (m # messages)) else [])"
          by (simp add: Let_def)
        then show ?thesis by blast
      qed
    next
      case False
      from Cons.IH [of "push (receive_result m b iss sid state) st"]
      obtain k where k: "k \<le> length messages"
        "filter is_complete (calls (snd (receive_loop rt ans p h iss sid state messages
            (push (receive_result m b iss sid state) st)))) =
         filter is_complete (calls (push (receive_result m b iss sid state) st)) @
         (if receiveMode p = ''peekLock''
          then map (\<lambda>m. CompleteMessage h (rm_messageId m)) (take k messages) else [])"
        by blast
      with Inr False
      have "k \<le> length (m # messages) \<and>
        filter is_complete (calls (snd (receive_loop rt ans p h iss sid state (m # messages) st))) =
        filter is_complete (calls st) @
        (if receiveMode p = ''peekLock''
         then map (\<lambda>m. CompleteMessage h (rm_messageId m)) (take k (m # messages)) else [])"
        by (simp add: Let_def)
      then show ?thesis by blast
    qed
  qed
qed

text \<open>
  In the action node a failed read of the session state leaves \<open>null\<close>, and the records of
  the session carry \<open>sessionState: null\<close>.
\<close>

lemma readSessionState_fails:
  "state_read ans = Inl e \<Longrightarrow> fst (readSessionState ans p h iss st) = JNull"
  by (simp add: readSessionState_def Let_def)

text \<open>
  C1, at a failing input. The trigger runs without sessions and with \<open>autoComplete\<close> off, the
  manual policy. A message is delivered: its record is emitted once, and no
  \<open>completeMessage\<close> call is made for it, where the claim requires exactly one after the
  emission.
\<close>

theorem trigger_manual_policy_no_completion:
  "filter is_emit (calls (trigger_run node_runtime quiet_broker ''2026-02-05T12:00:01.000Z''
      (queue_config ''none'' False) [MessageArrives (PlainReceiver 0) hello_message]
      (trigger_start (queue_config ''none'' False) 0))) =
     [Emit (JObj (nodeExecutionData (queue_config ''none'' False) ''2026-02-05T12:00:01.000Z''
                    hello_message (JStr ''hello'')))] \<and>
   filter is_complete (calls (trigger_run node_runtime quiet_broker ''2026-02-05T12:00:01.000Z''
      (queue_config ''none'' False) [MessageArrives (PlainReceiver 0) hello_message]
      (trigger_start (queue_config ''none'' False) 0))) = []"
proof -
  have n: "normalizeBody node_runtime (rm_body hello_message) = Inr (JStr ''hello'')"
    by (simp add: hello_message_def normalizeBody_plain_string js_trim_def isWhiteSpace_def
          startsWith_def)
  show ?thesis
    by (simp add: trigger_step_def processMessage_def n Let_def trigger_start_def
          queue_config_def)
qed

text \<open>
  C7, at a failing input. The trigger holds the session \<open>S1\<close> with \<open>autoComplete\<close> off, and
  \<open>getSessionState\<close> rejects. A message is delivered: the record is emitted once, with the
  session id of the receiver and \<open>sessionState: null\<close>, as the claim says; but no
  \<open>completeMessage\<close> call is made, where the claim says the message is still completed.
\<close>

theorem trigger_state_read_failure_no_completion:
  "filter is_emit (calls (trigger_run node_runtime stateless_broker ''2026-02-05T12:00:01.000Z''
      (queue_config ''specific'' False)
      [LoopTurn (accepts receiver_1), MessageArrives (SessionReceiver receiver_1) hello_message]
      (trigger_start (queue_config ''specific'' False) 0))) =
     [Emit (JObj (nodeExecutionData (queue_config ''specific'' False) ''2026-02-05T12:00:01.000Z''
                    hello_message (JStr ''hello'') @
                  [(''sessionInfo'',
                    JObj [(''sessionId'', JStr ''S1''), (''sessionState'', JNull),
                          (''isSessionMessage'', JBool True)])]))] \<and>
   filter is_complete (calls (trigger_run node_runtime stateless_broker ''2026-02-05T12:00:01.000Z''
      (queue_config ''specific'' False)
      [LoopTurn (accepts receiver_1), MessageArrives (SessionReceiver receiver_1) hello_message]
      (trigger_start (queue_config ''specific'' False) 0))) = []"
proof -
  have n: "normalizeBody node_runtime (rm_body hello_message) = Inr (JStr ''hello'')"
    by (simp add: hello_message_def normalizeBody_plain_string js_trim_def isWhiteSpace_def
          startsWith_def)
  show ?thesis
    by (simp add: trigger_step_def processMessage_def n Let_def trigger_start_def
          queue_config_def accepts_def receiver_1_def stateless_broker_def sessionLoopTurn_def
          getOrCreateSessionReceiver_def sessionInfo_def)
qed

text \<open>
  The action node on the same delivery, for comparison: the session \<open>S1\<close> is accepted, the read
  of its state fails, one message is received under \<open>peekLock\<close>. The record is pushed with
  \<open>sessionState: null\<close>, and then the message is completed.
\<close>

lemma receiveMessages_state_read_failure_example:
  "queue_receiveMessages node_runtime (stateless_answers [hello_message]) ''sdk'' ''orders''
     (peek_lock_params ''specific'') =
   (None,
    \<lparr>calls =
       [AcceptSession ''orders'' ''S1'' 60000, GetSessionState 1,
        LogError (SdkError ''session state not found''), ReceiveMessages 1 10 30000,
        PushReturnData (receive_result hello_message (JStr ''hello'') True (Some ''S1'') JNull),
        CompleteMessage 1 (JStr ''m-1''), CloseReceiver 1, CloseClient],
     returnData = [receive_result hello_message (JStr ''hello'') True (Some ''S1'') JNull]\<rparr>)"
proof -
  have n: "normalizeBody node_runtime (rm_body hello_message) = Inr (JStr ''hello'')"
    by (simp add: hello_message_def normalizeBody_plain_string js_trim_def isWhiteSpace_def
          startsWith_def)
  have m: "rm_messageId hello_message = JStr ''m-1''"
    by (simp add: hello_message_def)
  show ?thesis
    by (simp add: queue_receiveMessages_def execute_guard_def acceptReceiver_def
          readSessionState_def writeSessionState_def peek_lock_params_def stateless_answers_def
          receiver_1_def n m Let_def call_def push_def)
qed

end
